theory Spec2Isabelle
  imports Main "HOL-Library.Product_Lexorder" "HOL-Library.Multiset"
begin

section \<open>Python values used by the converter\<close>

text \<open>
  A Python \<open>str\<close> is a sequence of Unicode code points, a \<open>bytes\<close> object a sequence
  of bytes. Line numbers, columns and offsets are Python integers.
\<close>

type_synonym pystr = "nat list"
type_synonym bytes = "char list"

datatype error = IndexError | TypeError | ValueError | OverflowError | UnicodeEncodeError
  | SyntaxError | OSError

definition asc :: "string \<Rightarrow> pystr" where
  "asc s = map of_char s"

text \<open>\<open>xs[i]\<close>: a negative index counts from the end, an index out of range raises.\<close>

definition py_index :: "'a list \<Rightarrow> int \<Rightarrow> error + 'a" where
  "py_index xs i =
     (if 0 \<le> i \<and> i < int (length xs) then Inr (xs ! nat i)
      else if i < 0 \<and> 0 \<le> int (length xs) + i then Inr (xs ! nat (int (length xs) + i))
      else Inl IndexError)"

text \<open>\<open>xs[i:j]\<close>: negative bounds count from the end, then both are clamped; never raises.\<close>

definition slice_bound :: "nat \<Rightarrow> int \<Rightarrow> nat" where
  "slice_bound n i = (if i < 0 then nat (max 0 (int n + i)) else min n (nat i))"

definition py_slice :: "'a list \<Rightarrow> int \<Rightarrow> int \<Rightarrow> 'a list" where
  "py_slice xs i j =
     (let lo = slice_bound (length xs) i; hi = slice_bound (length xs) j
      in take (hi - lo) (drop lo xs))"

text \<open>\<open>str.encode('utf-8')\<close>: a surrogate code point cannot be encoded.\<close>

definition utf8_cp :: "nat \<Rightarrow> bytes option" where
  "utf8_cp c =
     (if c < 0x80 then Some [char_of c]
      else if c < 0x800 then Some [char_of (0xC0 + c div 64), char_of (0x80 + c mod 64)]
      else if 0xD800 \<le> c \<and> c < 0xE000 then None
      else if c < 0x10000 then
        Some [char_of (0xE0 + c div 4096), char_of (0x80 + (c div 64) mod 64),
              char_of (0x80 + c mod 64)]
      else
        Some [char_of (0xF0 + c div 262144), char_of (0x80 + (c div 4096) mod 64),
              char_of (0x80 + (c div 64) mod 64), char_of (0x80 + c mod 64)])"

fun utf8_encode :: "pystr \<Rightarrow> bytes option" where
  "utf8_encode [] = Some []"
| "utf8_encode (c # cs) =
     (case utf8_cp c of
        None \<Rightarrow> None
      | Some b \<Rightarrow> (case utf8_encode cs of None \<Rightarrow> None | Some bs \<Rightarrow> Some (b @ bs)))"

text \<open>
  \<open>bytes.splitlines(keepends=True)\<close>: a line ends at \<open>\n\<close>, \<open>\r\<close> or \<open>\r\n\<close>, the
  terminator stays with its line, and a last line without terminator is kept when it is
  not empty. The first argument is the line collected so far.
\<close>

fun splitlines_keepends :: "bytes \<Rightarrow> bytes \<Rightarrow> bytes list" where
  "splitlines_keepends cur [] = (if cur = [] then [] else [cur])"
| "splitlines_keepends cur [c] = [cur @ [c]]"
| "splitlines_keepends cur (c # d # ds) =
     (if c = CHR 0x0A then (cur @ [c]) # splitlines_keepends [] (d # ds)
      else if c = CHR 0x0D then
        (if d = CHR 0x0A then (cur @ [c, d]) # splitlines_keepends [] ds
         else (cur @ [c]) # splitlines_keepends [] (d # ds))
      else splitlines_keepends (cur @ [c]) (d # ds))"

section \<open>Syntax trees\<close>

text \<open>
  The nodes of Python's \<open>ast\<close> module that the converter tells apart, with the attributes
  it reads. Every other node class is \<open>Other\<close>, with its child nodes in field order, which
  is the order \<open>generic_visit\<close> follows. The context nodes (\<open>Load\<close>) have no children and
  no effect and are left out.
\<close>

record pos =
  lineno :: int
  col_offset :: int
  end_lineno :: int
  end_col_offset :: int

datatype const_value = Str pystr | NonStr

datatype node =
    Name pos pystr
  | Constant pos const_value
  | Attribute pos node pystr
  | Call pos node "node list" "node list"
  | JoinedStr pos "node list"
  | FormattedValue pos node int "node option"
  | Other "node list"

text \<open>
  What the converter takes from Python's library: \<open>ast.unparse\<close> on a node of a parsed
  tree, \<open>ast.parse(s, mode='eval').body\<close> (\<open>None\<close> for a \<open>SyntaxError\<close>), and what rests
  on the Unicode tables: the methods \<open>str.lower\<close>, \<open>str.isupper\<close> and \<open>str.isdigit\<close>, and
  the table behind \<open>str.isprintable\<close>, which \<open>repr\<close> consults for code points above ASCII.
\<close>

record env =
  unparse :: "node \<Rightarrow> pystr"
  parse_eval :: "pystr \<Rightarrow> node option"
  isprintable :: "nat \<Rightarrow> bool"
  str_lower :: "pystr \<Rightarrow> pystr"
  str_isupper :: "pystr \<Rightarrow> bool"
  str_isdigit :: "pystr \<Rightarrow> bool"

section \<open>The string classifier \<open>_is_user_facing_string\<close>\<close>

subsection \<open>String methods\<close>

text \<open>
  \<open>str.lower\<close>, \<open>str.isupper\<close> and \<open>str.isdigit\<close> on ASCII text, and on text whose other
  code points have no case and are no digits (the pictographs of the examples): the
  letters \<open>A\<close> to \<open>Z\<close> are the upper-case ones, \<open>0\<close> to \<open>9\<close> the digits. On other text
  the methods follow the Unicode tables and are taken from the environment.
\<close>

definition ascii_lower_cp :: "nat \<Rightarrow> nat" where
  "ascii_lower_cp c = (if 65 \<le> c \<and> c \<le> 90 then c + 32 else c)"

definition ascii_lower :: "pystr \<Rightarrow> pystr" where
  "ascii_lower s = map ascii_lower_cp s"

definition ascii_isupper :: "pystr \<Rightarrow> bool" where
  "ascii_isupper w \<longleftrightarrow> list_ex (\<lambda>c. 65 \<le> c \<and> c \<le> 90) w \<and> \<not> list_ex (\<lambda>c. 97 \<le> c \<and> c \<le> 122) w"

definition ascii_isdigit :: "pystr \<Rightarrow> bool" where
  "ascii_isdigit w \<longleftrightarrow> w \<noteq> [] \<and> list_all (\<lambda>c. 48 \<le> c \<and> c \<le> 57) w"

text \<open>The code points \<open>str.isspace\<close> accepts: what \<open>strip()\<close> and \<open>split()\<close> remove.\<close>

definition is_space :: "nat \<Rightarrow> bool" where
  "is_space c \<longleftrightarrow>
     (9 \<le> c \<and> c \<le> 13) \<or> (28 \<le> c \<and> c \<le> 32) \<or> c = 0x85 \<or> c = 0xA0 \<or> c = 0x1680 \<or>
     (0x2000 \<le> c \<and> c \<le> 0x200A) \<or> c = 0x2028 \<or> c = 0x2029 \<or> c = 0x202F \<or> c = 0x205F \<or>
     c = 0x3000"

definition strip_chars :: "(nat \<Rightarrow> bool) \<Rightarrow> pystr \<Rightarrow> pystr" where
  "strip_chars P s = rev (dropWhile P (rev (dropWhile P s)))"

definition py_strip :: "pystr \<Rightarrow> pystr" where
  "py_strip s = strip_chars is_space s"

text \<open>\<open>s.split()\<close>: the maximal runs of code points that are not whitespace.\<close>

fun split_ws :: "pystr \<Rightarrow> pystr \<Rightarrow> pystr list" where
  "split_ws cur [] = (if cur = [] then [] else [cur])"
| "split_ws cur (c # cs) =
     (if is_space c then (if cur = [] then split_ws [] cs else cur # split_ws [] cs)
      else split_ws (cur @ [c]) cs)"

definition py_split :: "pystr \<Rightarrow> pystr list" where
  "py_split s = split_ws [] s"

fun starts_with :: "pystr \<Rightarrow> pystr \<Rightarrow> bool" where
  "starts_with s [] = True"
| "starts_with [] (p # ps) = False"
| "starts_with (c # cs) (p # ps) = (c = p \<and> starts_with cs ps)"

text \<open>\<open>p in s\<close> for two strings.\<close>

fun is_substr :: "pystr \<Rightarrow> pystr \<Rightarrow> bool" where
  "is_substr p [] = (p = [])"
| "is_substr p (c # cs) = (starts_with (c # cs) p \<or> is_substr p cs)"

subsection \<open>The pattern lists\<close>

definition pure_formatting_patterns :: "pystr list" where
  "pure_formatting_patterns =
     [asc ''='', asc ''-'', [0x2500], [0x2510], [0x2518], [0x250C], [0x2514], [0x256D], [0x256E],
      [0x2570], [0x256F],
      asc ''---'', asc ''----'', asc ''-----'', asc ''------'',
      asc ''==='', asc ''===='', asc ''====='', asc ''======'',
      asc ''___'', asc ''____'', asc ''_____'', asc ''______'']"

definition output_formatting :: "pystr list" where
  "output_formatting =
     [asc ''--- stderr ---'', asc ''--- stdout ---'', asc ''--------------'',
      asc ''--------------------------------'', asc ''========================'',
      asc ''~~~~~~~~~~~~~~~~~~~~~~~~~~~~~~~~'']"

definition single_emoji_formatting :: "pystr list" where
  "single_emoji_formatting =
     [[0x1F525], [0x1F30D], [0x2705], [0x26A0, 0xFE0F], [0x1F527], [0x1F680], [0x1F9F9],
      [0x1F52C], [0x1F3AF], [0x1F4E6], [0x1F50D], [0x274C]]"

definition technical_patterns :: "pystr list" where
  "technical_patterns =
     [asc ''.py'', asc ''.json'', asc ''.dist-info'', asc ''.egg-info'', asc ''.lock'', asc ''.tmp'',
      asc ''omnipkg:pkg:'', asc ''omnipkg:snapshot:'', asc ''bubble_version:'', asc ''active_version'',
      asc ''import '', asc ''from '', asc ''def '', asc ''class '', asc ''try:'', asc ''except '',
      asc ''finally:'', asc ''if '', asc ''else:'', asc ''elif '', asc ''for '', asc ''while '',
      asc ''return '', asc ''yield '', asc ''with '', asc ''as '', asc ''pass'', asc ''break'',
      asc ''continue'', asc ''raise '', asc ''assert '', asc ''lambda '', [102, 34], [102, 39],
      asc ''.__'', asc ''sys.path'', asc ''os.environ'']"

definition user_emojis :: "pystr list" where
  "user_emojis =
     [[0x2705], [0x274C], [0x26A0, 0xFE0F], [0x1F50D], [0x1F4E6], [0x1F3AF], [0x1F527],
      [0x1F9F9], [0x1F680], [0x1F52C]]"

text \<open>The argument of \<open>word.strip(...)\<close> in the test for meaningful text.\<close>

definition emoji_strip_set :: "pystr" where
  "emoji_strip_set =
     [0x1F525, 0x1F30D, 0x2705, 0x26A0, 0xFE0F, 0x1F527, 0x1F9F9, 0x1F680, 0x1F52C, 0x1F3AF,
      0x1F4E6, 0x1F50D, 0x274C]"

definition user_facing_patterns :: "pystr list" where
  "user_facing_patterns =
     [asc ''error'', asc ''warning'', asc ''success'', asc ''failed'', asc ''complete'',
      asc ''install'', asc ''remove'', asc ''update'', asc ''found'', asc ''missing'',
      asc ''version'', asc ''package'', asc ''dependency'', asc ''conflict'', asc ''press enter'',
      asc ''are you sure'', asc ''continue'', asc ''cancel'', asc ''proceed'', asc ''select'',
      asc ''choice'', asc ''skipping'', asc ''restoring'', asc ''clearing'', asc ''verification'',
      asc ''cleanup'', asc ''test'', asc ''switching'']"

subsection \<open>The classifier\<close>

text \<open>
  The tests of \<open>_is_user_facing_string\<close> in the order of the source; each \<open>return\<close> is
  a branch.
\<close>

definition is_user_facing_string :: "env \<Rightarrow> pystr \<Rightarrow> pystr \<Rightarrow> bool" where
  "is_user_facing_string E content context =
     (let content_lower = str_lower E content;
          context_lower = str_lower E (py_strip context);
          content_stripped = py_strip content
      in
      if content_stripped \<in> set pure_formatting_patterns then False
      else if length (remdups content_stripped) = 1 \<and> hd content_stripped \<in> set (asc ''=-_~'')
        then False
      else if py_strip content_lower \<in> set (map (str_lower E) output_formatting) then False
      else
        let content_no_whitespace = concat (py_split content) in
        if content_no_whitespace \<in> set single_emoji_formatting \<or>
           (length content_no_whitespace \<le> 3 \<and>
            list_all (\<lambda>c. c \<in> set (concat single_emoji_formatting)) content_no_whitespace)
          then False
        else if py_strip content = [] \<or> content \<in> set [[10], [10, 10], [9], [32]] then False
        else if list_ex (\<lambda>pattern. is_substr pattern content_lower) technical_patterns then False
        else if (47 \<in> set content \<or> 92 \<in> set content) \<and> 32 \<notin> set content then False
        else
          let has_emoji = list_ex (\<lambda>char. is_substr char content) user_emojis;
              has_meaningful_text =
                (length (filter (\<lambda>word. strip_chars (\<lambda>c. c \<in> set emoji_strip_set) word \<noteq> [])
                    (py_split content)) > 0)
          in
          if has_emoji \<and> has_meaningful_text then True
          else if length (py_split content) > 2 \<and>
                  list_ex (\<lambda>keyword. is_substr keyword content_lower) user_facing_patterns
            then True
          else if starts_with context_lower (asc ''print('') \<or>
                  starts_with context_lower (asc ''input('') \<or>
                  starts_with context_lower (asc ''_('')
            then True
          else
            let words = py_split content in
            if length words \<ge> 3 \<and> list_ex (\<lambda>c. c \<in> set content) (asc ''.,!?:'') \<and>
               \<not> list_all (\<lambda>word. str_isupper E word \<or> str_isdigit E word) words
              then True
            else False)"

section \<open>Lines of the source text\<close>

text \<open>
  \<open>str.splitlines()\<close>: the line boundaries of \<open>str\<close>, which are more than those of
  \<open>bytes\<close>; the terminators are dropped.
\<close>

definition is_linebreak :: "nat \<Rightarrow> bool" where
  "is_linebreak c \<longleftrightarrow>
     c = 10 \<or> c = 11 \<or> c = 12 \<or> c = 13 \<or> c = 28 \<or> c = 29 \<or> c = 30 \<or> c = 0x85 \<or>
     c = 0x2028 \<or> c = 0x2029"

fun str_splitlines :: "pystr \<Rightarrow> pystr \<Rightarrow> pystr list" where
  "str_splitlines cur [] = (if cur = [] then [] else [cur])"
| "str_splitlines cur [c] = (if is_linebreak c then [cur] else [cur @ [c]])"
| "str_splitlines cur (c # d # ds) =
     (if c = 13 \<and> d = 10 then cur # str_splitlines [] ds
      else if is_linebreak c then cur # str_splitlines [] (d # ds)
      else str_splitlines (cur @ [c]) (d # ds))"

section \<open>The analyzer \<open>FStringAnalyzer\<close>\<close>

text \<open>An entry of \<open>strings_to_convert\<close>: a dictionary whose \<open>type\<close> is \<open>Constant\<close> or \<open>JoinedStr\<close>.\<close>

datatype candidate =
    ConstantC (cand_location: "int \<times> int") (cand_original_line: pystr) (cand_value: pystr)
  | JoinedStrC (cand_location: "int \<times> int") (cand_template: pystr)
      (cand_variables: "pystr list") (cand_original_line: pystr)

record analyzer =
  source_lines :: "pystr list"
  strings_to_convert :: "candidate list"
  translated_locations :: "(int \<times> int) set"

text \<open>\<open>FStringAnalyzer.__init__\<close>.\<close>

definition new_analyzer :: "pystr \<Rightarrow> analyzer" where
  "new_analyzer source_code =
     \<lparr> source_lines = str_splitlines [] source_code, strings_to_convert = [],
       translated_locations = {} \<rparr>"

definition location_key :: "pos \<Rightarrow> int \<times> int" where
  "location_key p = (lineno p, col_offset p)"

text \<open>The first test of \<open>visit_Call\<close>: a call of \<open>_\<close>, or of an attribute of such a call.\<close>

fun is_translation_call :: "node \<Rightarrow> bool" where
  "is_translation_call (Name p ident) = (ident = asc ''_'')"
| "is_translation_call (Attribute p (Call q (Name r ident) args kws) attr) = (ident = asc ''_'')"
| "is_translation_call func = False"

definition user_facing_funcs :: "pystr set" where
  "user_facing_funcs = {asc ''print'', asc ''input'', asc ''echo'', asc ''prompt''}"

fun func_name_of :: "node \<Rightarrow> pystr" where
  "func_name_of (Name p ident) = ident"
| "func_name_of (Attribute p v attr) = attr"
| "func_name_of func = []"

text \<open>The loop \<open>for arg in node.args\<close> of \<open>visit_Call\<close>.\<close>

fun scan_args :: "env \<Rightarrow> node list \<Rightarrow> analyzer \<Rightarrow> error + analyzer" where
  "scan_args E [] a = Inr a"
| "scan_args E (Constant p (Str v) # args) a =
     (if location_key p \<in> translated_locations a then scan_args E args a
      else
        (case py_index (source_lines a) (lineno p - 1) of
           Inl e \<Rightarrow> Inl e
         | Inr original_line \<Rightarrow>
            if is_user_facing_string E v original_line then
              scan_args E args
                (a\<lparr> strings_to_convert :=
                      strings_to_convert a @ [ConstantC (location_key p) (py_strip original_line) v],
                    translated_locations := insert (location_key p) (translated_locations a) \<rparr>)
            else scan_args E args a))"
| "scan_args E (arg # args) a = scan_args E args a"

text \<open>
  \<open>chr(i)\<close> raises outside the range of code points: \<open>OverflowError\<close> for an integer that
  does not fit a C \<open>int\<close>, \<open>ValueError\<close> otherwise.
\<close>

definition py_chr :: "int \<Rightarrow> error + nat" where
  "py_chr i =
     (if 0 \<le> i \<and> i < 0x110000 then Inr (nat i)
      else if - 2147483648 \<le> i \<and> i \<le> 2147483647 then Inl ValueError
      else Inl OverflowError)"

text \<open>
  The loop over \<open>node.values\<close> of \<open>visit_JoinedStr\<close>, with \<open>content_parts\<close> and \<open>variables\<close>.
  A part is \<open>None\<close> when it is a constant that is no string, on which \<open>''.join\<close> raises
  after the loop.
\<close>

fun collect_parts :: "env \<Rightarrow> node list \<Rightarrow> pystr option list \<Rightarrow> pystr list
    \<Rightarrow> error + pystr option list \<times> pystr list" where
  "collect_parts E [] content_parts vars = Inr (content_parts, vars)"
| "collect_parts E (Constant p (Str v) # values) content_parts vars =
     collect_parts E values (content_parts @ [Some v]) vars"
| "collect_parts E (Constant p NonStr # values) content_parts vars =
     collect_parts E values (content_parts @ [None]) vars"
| "collect_parts E (FormattedValue p v conversion format_spec # values) content_parts vars =
     (case (if conversion \<noteq> - 1
            then (case py_chr conversion of Inl e \<Rightarrow> Inl e | Inr c \<Rightarrow> Inr (asc ''{!'' @ [c]))
            else Inr (asc ''{'')) of
        Inl e \<Rightarrow> Inl e
      | Inr opened \<Rightarrow>
          (let placeholder =
                 (case format_spec of
                    None \<Rightarrow> opened
                  | Some spec \<Rightarrow> opened @ asc '':'' @ unparse E spec) @ asc ''}''
           in collect_parts E values (content_parts @ [Some placeholder]) (vars @ [unparse E v])))"
| "collect_parts E (value # values) content_parts vars =
     collect_parts E values (content_parts @ [Some (unparse E value)]) vars"

text \<open>\<open>''.join(content_parts)\<close>.\<close>

fun join_parts :: "pystr option list \<Rightarrow> error + pystr" where
  "join_parts [] = Inr []"
| "join_parts (None # ps) = Inl TypeError"
| "join_parts (Some s # ps) = (case join_parts ps of Inl e \<Rightarrow> Inl e | Inr t \<Rightarrow> Inr (s @ t))"

text \<open>\<open>visit_JoinedStr\<close>.\<close>

definition visit_JoinedStr :: "env \<Rightarrow> pos \<Rightarrow> node list \<Rightarrow> analyzer \<Rightarrow> error + analyzer" where
  "visit_JoinedStr E p values a =
     (if location_key p \<in> translated_locations a then Inr a
      else
        (case collect_parts E values [] [] of
           Inl e \<Rightarrow> Inl e
         | Inr (content_parts, vars) \<Rightarrow>
            (case join_parts content_parts of
               Inl e \<Rightarrow> Inl e
             | Inr tmpl \<Rightarrow>
                (case py_index (source_lines a) (lineno p - 1) of
                   Inl e \<Rightarrow> Inl e
                 | Inr original_line \<Rightarrow>
                    if is_user_facing_string E tmpl original_line then
                      Inr (a\<lparr> strings_to_convert :=
                              strings_to_convert a @
                                [JoinedStrC (location_key p) tmpl vars (py_strip original_line)] \<rparr>)
                    else Inr a))))"

text \<open>
  \<open>NodeVisitor.visit\<close>: \<open>visit_Call\<close> and \<open>visit_JoinedStr\<close> for their classes,
  \<open>generic_visit\<close>, which visits the child nodes in field order, for every other class.
\<close>

fun visit :: "env \<Rightarrow> node \<Rightarrow> analyzer \<Rightarrow> error + analyzer"
  and visit_all :: "env \<Rightarrow> node list \<Rightarrow> analyzer \<Rightarrow> error + analyzer" where
  "visit E (Call p func args kws) a =
     (if is_translation_call func then
        Inr (a\<lparr> translated_locations := insert (location_key p) (translated_locations a) \<rparr>)
      else
        (case (if func_name_of func \<in> user_facing_funcs then scan_args E args a else Inr a) of
           Inl e \<Rightarrow> Inl e
         | Inr a1 \<Rightarrow>
            (case visit E func a1 of
               Inl e \<Rightarrow> Inl e
             | Inr a2 \<Rightarrow>
                (case visit_all E args a2 of
                   Inl e \<Rightarrow> Inl e
                 | Inr a3 \<Rightarrow> visit_all E kws a3))))"
| "visit E (JoinedStr p values) a = visit_JoinedStr E p values a"
| "visit E (Name p ident) a = Inr a"
| "visit E (Constant p c) a = Inr a"
| "visit E (Attribute p v attr) a = visit E v a"
| "visit E (FormattedValue p v conversion None) a = visit E v a"
| "visit E (FormattedValue p v conversion (Some spec)) a =
     (case visit E v a of Inl e \<Rightarrow> Inl e | Inr a1 \<Rightarrow> visit E spec a1)"
| "visit E (Other children) a = visit_all E children a"
| "visit_all E [] a = Inr a"
| "visit_all E (n # ns) a = (case visit E n a of Inl e \<Rightarrow> Inl e | Inr a1 \<Rightarrow> visit_all E ns a1)"

text \<open>
  \<open>analyze_file\<close> once the file is read and parsed: it returns the analyzer's list as it
  is. (An exception of the visit is not caught there.)
\<close>

definition analyze :: "env \<Rightarrow> pystr \<Rightarrow> node \<Rightarrow> error + candidate list" where
  "analyze E source_code tree =
     (case visit E tree (new_analyzer source_code) of
        Inl e \<Rightarrow> Inl e
      | Inr a \<Rightarrow> Inr (strings_to_convert a))"

section \<open>The transformer \<open>FStringTransformer\<close>\<close>

text \<open>An entry of \<open>FStringTransformer.conversions_made\<close>.\<close>

record conversion =
  start_line :: int
  start_col :: int
  end_line :: int
  end_col :: int
  original_text :: pystr
  replacement_text :: pystr
  template :: pystr
  variables :: "pystr list"

text \<open>The dataclass \<open>ConversionResult\<close>.\<close>

record ConversionResult =
  file_path :: pystr
  line_number :: int
  original_code :: pystr
  converted_code :: pystr
  fstring_content :: pystr
  variables_used :: "pystr list"
  confidence :: pystr

subsection \<open>\<open>repr\<close> of a string\<close>

definition hex_digit :: "nat \<Rightarrow> nat" where
  "hex_digit d = (if d < 10 then 48 + d else 87 + d)"

definition hex2 :: "nat \<Rightarrow> pystr" where
  "hex2 c = [hex_digit (c div 16 mod 16), hex_digit (c mod 16)]"

definition hex4 :: "nat \<Rightarrow> pystr" where
  "hex4 c = hex2 (c div 256 mod 256) @ hex2 (c mod 256)"

definition hex8 :: "nat \<Rightarrow> pystr" where
  "hex8 c = hex4 (c div 65536 mod 65536) @ hex4 (c mod 65536)"

text \<open>
  One code point of \<open>repr(s)\<close>: the quote and the backslash get a backslash, tab, line feed
  and carriage return their letter, the other control characters and the code points that
  are not printable a \<open>\x\<close>, \<open>\u\<close> or \<open>\U\<close> escape in lower-case hexadecimal.
\<close>

definition repr_cp :: "(nat \<Rightarrow> bool) \<Rightarrow> nat \<Rightarrow> nat \<Rightarrow> pystr" where
  "repr_cp printable quote ch =
     (if ch = quote \<or> ch = 92 then [92, ch]
      else if ch = 9 then [92, 116]
      else if ch = 10 then [92, 110]
      else if ch = 13 then [92, 114]
      else if ch < 32 \<or> ch = 127 then [92, 120] @ hex2 ch
      else if ch < 127 then [ch]
      else if printable ch then [ch]
      else if ch \<le> 255 then [92, 120] @ hex2 ch
      else if ch \<le> 65535 then [92, 117] @ hex4 ch
      else [92, 85] @ hex8 ch)"

text \<open>\<open>repr(s)\<close>: double quotes when the string has a single quote and no double quote.\<close>

definition py_repr :: "(nat \<Rightarrow> bool) \<Rightarrow> pystr \<Rightarrow> pystr" where
  "py_repr printable s =
     (let quote = (if 39 \<in> set s \<and> 34 \<notin> set s then 34 else 39)
      in [quote] @ concat (map (repr_cp printable quote) s) @ [quote])"

subsection \<open>The replacement nodes and their text\<close>

text \<open>A node the transformer builds has no position; the field is never read.\<close>

definition no_pos :: pos where
  "no_pos = \<lparr> lineno = 0, col_offset = 0, end_lineno = 0, end_col_offset = 0 \<rparr>"

definition translation_call :: "pystr \<Rightarrow> node" where
  "translation_call s = Call no_pos (Name no_pos (asc ''_'')) [Constant no_pos (Str s)] []"

definition format_call :: "node \<Rightarrow> node list \<Rightarrow> node" where
  "format_call tc format_args = Call no_pos (Attribute no_pos tc (asc ''format'')) format_args []"

fun join_comma :: "pystr list \<Rightarrow> pystr" where
  "join_comma [] = []"
| "join_comma [x] = x"
| "join_comma (x # y # ys) = x @ asc '', '' @ join_comma (y # ys)"

text \<open>
  \<open>ast.unparse\<close> on the nodes the transformer builds: a call is its callee, then the
  arguments between parentheses, separated by a comma and a space; an attribute is its
  value, a dot and the name; a string constant is its \<open>repr\<close>. The parsed arguments are
  written by the library.
\<close>

fun unparse_new :: "env \<Rightarrow> node \<Rightarrow> pystr" where
  "unparse_new E (Call p (Name q ident) [Constant r (Str s)] []) =
     ident @ asc ''('' @ py_repr (isprintable E) s @ asc '')''"
| "unparse_new E (Call p (Attribute q tc attr) args []) =
     unparse_new E tc @ asc ''.'' @ attr @ asc ''('' @ join_comma (map (unparse E) args) @ asc '')''"
| "unparse_new E n = unparse E n"

text \<open>The list comprehension over \<open>variables\<close>: the first text that does not parse raises.\<close>

fun parse_all :: "env \<Rightarrow> pystr list \<Rightarrow> error + node list" where
  "parse_all E [] = Inr []"
| "parse_all E (v # vs) =
     (case parse_eval E v of
        None \<Rightarrow> Inl SyntaxError
      | Some n \<Rightarrow> (case parse_all E vs of Inl e \<Rightarrow> Inl e | Inr ns \<Rightarrow> Inr (n # ns)))"

text \<open>The node built for an f-string candidate.\<close>

definition joined_new_node :: "env \<Rightarrow> pystr \<Rightarrow> pystr list \<Rightarrow> error + node" where
  "joined_new_node E tmpl vars =
     (if vars = [] then Inr (translation_call tmpl)
      else (case parse_all E vars of
              Inl e \<Rightarrow> Inl e
            | Inr format_args \<Rightarrow> Inr (format_call (translation_call tmpl) format_args)))"

text \<open>The dictionary appended to \<open>conversions_made\<close>.\<close>

definition record_conversion :: "pos \<Rightarrow> pystr \<Rightarrow> pystr \<Rightarrow> pystr \<Rightarrow> pystr list \<Rightarrow> conversion" where
  "record_conversion p line code tmpl vars =
     \<lparr> start_line = lineno p, start_col = col_offset p, end_line = end_lineno p,
       end_col = end_col_offset p, original_text = line, replacement_text = code,
       template = tmpl, variables = vars \<rparr>"

text \<open>
  What \<open>generic_visit\<close> does with the node itself, after its children: an f-string whose
  location has a candidate of type \<open>JoinedStr\<close>, a string constant whose location has a
  candidate of type \<open>Constant\<close>.
\<close>

fun convert_joined :: "env \<Rightarrow> pos \<Rightarrow> candidate option \<Rightarrow> error + conversion list" where
  "convert_joined E p (Some (JoinedStrC loc tmpl vars line)) =
     (case joined_new_node E tmpl vars of
        Inl e \<Rightarrow> Inl e
      | Inr new_node \<Rightarrow> Inr [record_conversion p line (unparse_new E new_node) tmpl vars])"
| "convert_joined E p target = Inr []"

fun convert_constant :: "env \<Rightarrow> pos \<Rightarrow> pystr \<Rightarrow> candidate option \<Rightarrow> conversion list" where
  "convert_constant E p v (Some (ConstantC loc line val)) =
     [record_conversion p line (unparse_new E (translation_call v)) [] []]"
| "convert_constant E p v target = []"

text \<open>
  \<open>FStringTransformer.generic_visit\<close>, which every node goes through: the children first,
  in field order, then the node. The tree is not changed; the result is
  \<open>conversions_made\<close>.
\<close>

fun transform :: "env \<Rightarrow> (int \<times> int \<Rightarrow> candidate option) \<Rightarrow> node \<Rightarrow> conversion list
    \<Rightarrow> error + conversion list"
  and transform_all :: "env \<Rightarrow> (int \<times> int \<Rightarrow> candidate option) \<Rightarrow> node list \<Rightarrow> conversion list
    \<Rightarrow> error + conversion list" where
  "transform E d (JoinedStr p values) cm =
     (case transform_all E d values cm of
        Inl e \<Rightarrow> Inl e
      | Inr cm1 \<Rightarrow>
          (case convert_joined E p (d (location_key p)) of
             Inl e \<Rightarrow> Inl e
           | Inr new \<Rightarrow> Inr (cm1 @ new)))"
| "transform E d (Constant p (Str v)) cm = Inr (cm @ convert_constant E p v (d (location_key p)))"
| "transform E d (Constant p NonStr) cm = Inr cm"
| "transform E d (Name p ident) cm = Inr cm"
| "transform E d (Attribute p v attr) cm = transform E d v cm"
| "transform E d (Call p func args kws) cm =
     (case transform E d func cm of
        Inl e \<Rightarrow> Inl e
      | Inr cm1 \<Rightarrow>
          (case transform_all E d args cm1 of
             Inl e \<Rightarrow> Inl e
           | Inr cm2 \<Rightarrow> transform_all E d kws cm2))"
| "transform E d (FormattedValue p v conversion None) cm = transform E d v cm"
| "transform E d (FormattedValue p v conversion (Some spec)) cm =
     (case transform E d v cm of Inl e \<Rightarrow> Inl e | Inr cm1 \<Rightarrow> transform E d spec cm1)"
| "transform E d (Other children) cm = transform_all E d children cm"
| "transform_all E d [] cm = Inr cm"
| "transform_all E d (n # ns) cm =
     (case transform E d n cm of Inl e \<Rightarrow> Inl e | Inr cm1 \<Rightarrow> transform_all E d ns cm1)"

text \<open>
  \<open>FStringTransformer.__init__\<close>: the dictionary from location to candidate; of two
  candidates with one location the later one stays.
\<close>

definition candidates_by_location :: "candidate list \<Rightarrow> (int \<times> int \<Rightarrow> candidate option)" where
  "candidates_by_location fstrings = map_of (rev (map (\<lambda>c. (cand_location c, c)) fstrings))"

section \<open>The patch engine of \<open>convert_file\<close>\<close>

definition sort_key_of :: "conversion \<Rightarrow> int \<times> int" where
  "sort_key_of x = (start_line x, start_col x)"

text \<open>
  \<open>sorted(xs, key=..., reverse=True)\<close>: descending by key, and elements with equal keys
  keep their original order.
\<close>

definition sorted_reverse :: "conversion list \<Rightarrow> conversion list" where
  "sorted_reverse xs = rev (sort_key sort_key_of (rev xs))"

text \<open>The loop that fills \<open>line_start_indices\<close>, started with \<open>[0]\<close> and \<open>current_pos = 0\<close>.\<close>

fun line_starts_from :: "int \<Rightarrow> bytes list \<Rightarrow> int list" where
  "line_starts_from current_pos [] = []"
| "line_starts_from current_pos (line # lines) =
     (current_pos + int (length line)) # line_starts_from (current_pos + int (length line)) lines"

definition line_start_indices :: "bytes \<Rightarrow> int list" where
  "line_start_indices source_bytes = 0 # line_starts_from 0 (splitlines_keepends [] source_bytes)"

definition mk_result :: "pystr \<Rightarrow> conversion \<Rightarrow> ConversionResult" where
  "mk_result path rep =
     \<lparr> file_path = path, line_number = start_line rep, original_code = original_text rep,
       converted_code = replacement_text rep, fstring_content = template rep,
       variables_used = variables rep, confidence = asc ''high'' \<rparr>"

text \<open>
  The loop over the sorted replacements. Its state is \<open>new_source_parts\<close>, \<open>last_pos\<close>
  and the converter's \<open>all_conversions\<close>, which keeps what was appended to it when a
  later iteration raises.
\<close>

fun patch_loop :: "pystr \<Rightarrow> bytes \<Rightarrow> int list \<Rightarrow> conversion list \<Rightarrow> bytes list \<Rightarrow> int
    \<Rightarrow> ConversionResult list \<Rightarrow> (error + bytes list \<times> int) \<times> ConversionResult list" where
  "patch_loop path src starts [] parts last_pos convs = (Inr (parts, last_pos), convs)"
| "patch_loop path src starts (rep # reps) parts last_pos convs =
     (case py_index starts (start_line rep - 1) of
        Inl e \<Rightarrow> (Inl e, convs)
      | Inr sb \<Rightarrow>
         (case py_index starts (end_line rep - 1) of
            Inl e \<Rightarrow> (Inl e, convs)
          | Inr eb \<Rightarrow>
             (let start_idx = sb + start_col rep; end_idx = eb + end_col rep in
              if start_idx \<ge> last_pos then patch_loop path src starts reps parts last_pos convs
              else
                (case utf8_encode (replacement_text rep) of
                   None \<Rightarrow> (Inl UnicodeEncodeError, convs)
                 | Some b \<Rightarrow>
                    patch_loop path src starts reps
                      (parts @ [py_slice src end_idx last_pos, b]) start_idx
                      (convs @ [mk_result path rep])))))"

text \<open>
  Lines 501 to 553 of \<open>convert_file\<close>: from the file's bytes and the transformer's
  \<open>conversions_made\<close> to \<open>final_source_bytes\<close>.
\<close>

definition patch_bytes :: "pystr \<Rightarrow> bytes \<Rightarrow> conversion list \<Rightarrow> ConversionResult list
    \<Rightarrow> (error + bytes) \<times> ConversionResult list" where
  "patch_bytes path source_bytes conversions_made convs =
     (case patch_loop path source_bytes (line_start_indices source_bytes)
             (sorted_reverse conversions_made) [] (int (length source_bytes)) convs of
        (Inl e, convs') \<Rightarrow> (Inl e, convs')
      | (Inr (parts, last_pos), convs') \<Rightarrow>
          (Inr (concat (rev (parts @ [py_slice source_bytes 0 last_pos]))), convs'))"

section \<open>The converter \<open>ASTFStringConverter\<close>\<close>

record stats =
  files_scanned :: int
  files_with_fstrings :: int
  files_modified :: int
  fstrings_found :: int
  fstrings_converted :: int
  backups_created :: int

record converter =
  dry_run :: bool
  backup :: bool
  stats :: stats
  all_conversions :: "ConversionResult list"

text \<open>
  Reading, decoding and parsing a file belong to Python's library; their outcome on the
  file is an input here: the file cannot be read, its bytes are not UTF-8, the parser
  raises, or there is a text and its tree.
\<close>

datatype parsed = Unreadable | NotUtf8 | NoParse | Parsed pystr node

text \<open>
  So does writing. Opening the file for writing and writing the buffer either succeeds or
  raises \<open>OSError\<close>, and then leaves some bytes in the file: the old ones when the file
  cannot be opened, none or a part of the buffer when the write fails after the file was
  truncated.
\<close>

datatype write_outcome = Written | WriteError bytes

text \<open>What a call prints: the two error lines of \<open>convert_file\<close> and the traceback.\<close>

datatype message = ErrorDecoding pystr | ErrorConverting pystr error | Traceback
  | ErrorReading pystr | SyntaxErrorIn pystr

text \<open>
  \<open>analyze_file\<close>: the candidate list, as the analyzer left it, and the counters. An
  exception of the visit leaves the method.
\<close>

definition analyze_file :: "env \<Rightarrow> converter \<Rightarrow> pystr \<Rightarrow> parsed
    \<Rightarrow> error + candidate list \<times> converter \<times> message list" where
  "analyze_file E c path outcome =
     (case outcome of
        Unreadable \<Rightarrow> Inr ([], c, [ErrorReading path])
      | NotUtf8 \<Rightarrow> Inr ([], c, [ErrorReading path])
      | NoParse \<Rightarrow> Inr ([], c, [SyntaxErrorIn path])
      | Parsed source_code tree \<Rightarrow>
          (case analyze E source_code tree of
             Inl e \<Rightarrow> Inl e
           | Inr found \<Rightarrow>
               (let st = (stats c)\<lparr> files_scanned := files_scanned (stats c) + 1 \<rparr>;
                    st' = (if found \<noteq> [] then
                             st\<lparr> files_with_fstrings := files_with_fstrings st + 1,
                                 fstrings_found := fstrings_found st + int (length found) \<rparr>
                           else st)
                in Inr (found, c\<lparr> stats := st' \<rparr>, []))))"

text \<open>
  The outcome of \<open>convert_file\<close>: the value returned, the local \<open>final_source_bytes\<close> when
  the call got as far as computing it, the bytes of the file afterwards, the converter
  afterwards, and what was printed.
\<close>

record outcome =
  returned :: bool
  final_source_bytes :: "bytes option"
  file_after :: bytes
  converter_after :: converter
  printed :: "message list"

definition failed :: "bytes \<Rightarrow> converter \<Rightarrow> message list \<Rightarrow> outcome" where
  "failed source_bytes c msgs =
     \<lparr> returned = False, final_source_bytes = None, file_after = source_bytes,
       converter_after = c, printed = msgs \<rparr>"

text \<open>
  \<open>convert_file\<close>. Every exception inside its \<open>try\<close>, the one of a failing read or
  write included, is caught, printed with a traceback, and makes it return \<open>False\<close>. The
  file is written only after the whole buffer is built, and only on a real run; the
  counters are updated after the write.
\<close>

definition convert_file :: "env \<Rightarrow> converter \<Rightarrow> pystr \<Rightarrow> bytes \<Rightarrow> parsed \<Rightarrow> write_outcome
    \<Rightarrow> candidate list \<Rightarrow> outcome" where
  "convert_file E c path source_bytes outcome w fstrings =
     (if fstrings = [] then failed source_bytes c []
      else
        (case outcome of
           Unreadable \<Rightarrow> failed source_bytes c [ErrorConverting path OSError, Traceback]
         | NotUtf8 \<Rightarrow> failed source_bytes c [ErrorDecoding path]
         | NoParse \<Rightarrow> failed source_bytes c [ErrorConverting path SyntaxError, Traceback]
         | Parsed source_code tree \<Rightarrow>
            (case transform E (candidates_by_location fstrings) tree [] of
               Inl e \<Rightarrow> failed source_bytes c [ErrorConverting path e, Traceback]
             | Inr conversions_made \<Rightarrow>
                if conversions_made = [] then failed source_bytes c []
                else
                  (case patch_bytes path source_bytes conversions_made (all_conversions c) of
                     (Inl e, convs) \<Rightarrow>
                       failed source_bytes (c\<lparr> all_conversions := convs \<rparr>)
                         [ErrorConverting path e, Traceback]
                   | (Inr final, convs) \<Rightarrow>
                       if dry_run c then
                         \<lparr> returned = True, final_source_bytes = Some final,
                           file_after = source_bytes,
                           converter_after =
                             c\<lparr> stats := (stats c)\<lparr> fstrings_converted :=
                                    fstrings_converted (stats c) + int (length conversions_made) \<rparr>,
                                all_conversions := convs \<rparr>,
                           printed = [] \<rparr>
                       else
                         (case w of
                            WriteError left \<Rightarrow>
                              \<lparr> returned = False, final_source_bytes = Some final,
                                file_after = left,
                                converter_after = c\<lparr> all_conversions := convs \<rparr>,
                                printed = [ErrorConverting path OSError, Traceback] \<rparr>
                          | Written \<Rightarrow>
                              \<lparr> returned = True, final_source_bytes = Some final,
                                file_after = final,
                                converter_after =
                                  c\<lparr> stats := (stats c)\<lparr>
                                         files_modified := files_modified (stats c) + 1,
                                         fstrings_converted :=
                                           fstrings_converted (stats c) +
                                           int (length conversions_made) \<rparr>,
                                     all_conversions := convs \<rparr>,
                                printed = [] \<rparr>)))))"

section \<open>Notions used to state the properties\<close>

subsection \<open>What the patch engine is meant to compute\<close>

text \<open>
  A position \<open>(line, col)\<close> lies inside the file when the line exists and the column is
  at most the length of that line (terminator included).
\<close>

definition valid_pos :: "bytes list \<Rightarrow> int \<Rightarrow> int \<Rightarrow> bool" where
  "valid_pos lines l c \<longleftrightarrow>
     1 \<le> l \<and> l \<le> int (length lines) \<and> 0 \<le> c \<and> c \<le> int (length (lines ! nat (l - 1)))"

text \<open>The absolute byte offset of a position: the bytes of the lines before it, plus the column.\<close>

definition offset_of :: "bytes list \<Rightarrow> int \<Rightarrow> int \<Rightarrow> nat" where
  "offset_of lines l c = length (concat (take (nat (l - 1)) lines)) + nat c"

definition span_start :: "bytes \<Rightarrow> conversion \<Rightarrow> nat" where
  "span_start src r = offset_of (splitlines_keepends [] src) (start_line r) (start_col r)"

definition span_end :: "bytes \<Rightarrow> conversion \<Rightarrow> nat" where
  "span_end src r = offset_of (splitlines_keepends [] src) (end_line r) (end_col r)"

definition encoded :: "conversion \<Rightarrow> bytes" where
  "encoded r = (case utf8_encode (replacement_text r) of Some b \<Rightarrow> b | None \<Rightarrow> [])"

definition span_of :: "bytes \<Rightarrow> conversion \<Rightarrow> nat \<times> nat \<times> bytes" where
  "span_of src r = (span_start src r, span_end src r, encoded r)"

definition valid_conversion :: "bytes \<Rightarrow> conversion \<Rightarrow> bool" where
  "valid_conversion src r \<longleftrightarrow>
     valid_pos (splitlines_keepends [] src) (start_line r) (start_col r) \<and>
     valid_pos (splitlines_keepends [] src) (end_line r) (end_col r) \<and>
     utf8_encode (replacement_text r) \<noteq> None"

text \<open>
  \<open>splice src pos spans hi\<close> is \<open>src[pos:hi]\<close> with every span \<open>(s, e, t)\<close> of the list,
  taken from left to right, replaced by its text \<open>t\<close>: the bytes before \<open>s\<close>, then \<open>t\<close>,
  then what follows from \<open>e\<close> on.
\<close>

fun splice :: "bytes \<Rightarrow> nat \<Rightarrow> (nat \<times> nat \<times> bytes) list \<Rightarrow> nat \<Rightarrow> bytes" where
  "splice src pos [] hi = take (hi - pos) (drop pos src)"
| "splice src pos ((s, e, t) # rest) hi = take (s - pos) (drop pos src) @ t @ splice src e rest hi"

text \<open>Pairwise disjoint half-open spans \<open>[start, end)\<close>.\<close>

definition non_overlapping :: "bytes \<Rightarrow> conversion list \<Rightarrow> bool" where
  "non_overlapping src reps \<longleftrightarrow>
     (\<forall>i < length reps. \<forall>j < length reps. i \<noteq> j \<longrightarrow>
        span_end src (reps ! i) \<le> span_start src (reps ! j) \<or>
        span_end src (reps ! j) \<le> span_start src (reps ! i))"


subsection \<open>Reading a string literal\<close>

text \<open>
  How Python reads back a string literal without prefix, in single or double quotes:
  the text between the quotes with its escape sequences decoded. \<open>None\<close> is a literal
  Python rejects, or one outside this fragment (triple quotes, \<open>\N{...}\<close>).
\<close>

definition hex_value :: "nat \<Rightarrow> nat option" where
  "hex_value c =
     (if 48 \<le> c \<and> c \<le> 57 then Some (c - 48)
      else if 97 \<le> c \<and> c \<le> 102 then Some (c - 87)
      else if 65 \<le> c \<and> c \<le> 70 then Some (c - 55)
      else None)"

fun hex_number :: "pystr \<Rightarrow> nat \<Rightarrow> nat option" where
  "hex_number [] acc = Some acc"
| "hex_number (c # cs) acc =
     (case hex_value c of None \<Rightarrow> None | Some d \<Rightarrow> hex_number cs (16 * acc + d))"

definition is_octal :: "nat \<Rightarrow> bool" where
  "is_octal c \<longleftrightarrow> 48 \<le> c \<and> c \<le> 55"

fun octal_number :: "pystr \<Rightarrow> nat \<Rightarrow> nat" where
  "octal_number [] acc = acc"
| "octal_number (c # cs) acc = octal_number cs (8 * acc + (c - 48))"

definition cons_opt :: "nat \<Rightarrow> pystr option \<Rightarrow> pystr option" where
  "cons_opt c r = (case r of None \<Rightarrow> None | Some s \<Rightarrow> Some (c # s))"

text \<open>
  \<open>unescape quote s\<close> reads the text after the opening quote; the closing quote has to be
  the last code point.
\<close>

function unescape :: "nat \<Rightarrow> pystr \<Rightarrow> pystr option" where
  "unescape quote [] = None"
| "unescape quote (c # cs) =
     (if c = quote then (if cs = [] then Some [] else None)
      else if c = 10 \<or> c = 13 then None
      else if c \<noteq> 92 then cons_opt c (unescape quote cs)
      else
        (case cs of
           [] \<Rightarrow> None
         | e # es \<Rightarrow>
            if e = 10 then unescape quote es
            else if e = 92 \<or> e = 39 \<or> e = 34 then cons_opt e (unescape quote es)
            else if e = 97 then cons_opt 7 (unescape quote es)
            else if e = 98 then cons_opt 8 (unescape quote es)
            else if e = 102 then cons_opt 12 (unescape quote es)
            else if e = 110 then cons_opt 10 (unescape quote es)
            else if e = 114 then cons_opt 13 (unescape quote es)
            else if e = 116 then cons_opt 9 (unescape quote es)
            else if e = 118 then cons_opt 11 (unescape quote es)
            else if is_octal e then
              (let digits = takeWhile is_octal (take 3 (e # es))
               in cons_opt (octal_number digits 0) (unescape quote (drop (length digits - 1) es)))
            else if e = 120 \<or> e = 117 \<or> e = 85 then
              (let n = (if e = 120 then 2 else if e = 117 then 4 else 8) in
               if length es < n then None
               else
                 (case hex_number (take n es) 0 of
                    None \<Rightarrow> None
                  | Some v \<Rightarrow> if v < 0x110000 then cons_opt v (unescape quote (drop n es)) else None))
            else if e = 78 then None
            else cons_opt 92 (cons_opt e (unescape quote es))))"
  by pat_completeness auto
termination
  by (relation "measure (\<lambda>(quote, s). length s)") auto

fun parse_literal :: "pystr \<Rightarrow> pystr option" where
  "parse_literal [] = None"
| "parse_literal (quote # rest) = (if quote = 39 \<or> quote = 34 then unescape quote rest else None)"

subsection \<open>The embedded expressions of an f-string\<close>


subsection \<open>The replacements the walk applies\<close>

text \<open>
  Of a list of replacements in the order of the walk, those that start before the cursor
  when their turn comes; the cursor starts at \<open>last_pos\<close> and moves to the start of each of
  them.
\<close>

fun applied :: "int list \<Rightarrow> conversion list \<Rightarrow> int \<Rightarrow> conversion list" where
  "applied starts [] last_pos = []"
| "applied starts (rep # reps) last_pos =
     (case py_index starts (start_line rep - 1) of
        Inl e \<Rightarrow> []
      | Inr sb \<Rightarrow>
          if sb + start_col rep \<ge> last_pos then applied starts reps last_pos
          else rep # applied starts reps (sb + start_col rep))"

text \<open>The lines of both positions exist, and the text can be encoded.\<close>

definition indexable :: "int list \<Rightarrow> conversion \<Rightarrow> bool" where
  "indexable starts r \<longleftrightarrow>
     py_index starts (start_line r - 1) \<noteq> Inl IndexError \<and>
     py_index starts (end_line r - 1) \<noteq> Inl IndexError \<and>
     utf8_encode (replacement_text r) \<noteq> None"

subsection \<open>What the traversal of the analyzer reaches\<close>

text \<open>The string constants among the direct arguments of a call.\<close>

fun const_args :: "node list \<Rightarrow> (pos \<times> pystr) list" where
  "const_args [] = []"
| "const_args (Constant q (Str v) # args) = (q, v) # const_args args"
| "const_args (arg # args) = const_args args"

text \<open>
  The string constants that are direct arguments of a call whose callee is named
  \<open>print\<close>, \<open>input\<close>, \<open>echo\<close> or \<open>prompt\<close>, as a bare name or as the last attribute, among
  the calls that are neither a translation call, nor inside one, nor inside an f-string.
\<close>

fun reached_sink_args :: "node \<Rightarrow> (pos \<times> pystr) list"
  and reached_sink_args_all :: "node list \<Rightarrow> (pos \<times> pystr) list" where
  "reached_sink_args (Call p func args kws) =
     (if is_translation_call func then []
      else (if func_name_of func \<in> user_facing_funcs then const_args args else []) @
           reached_sink_args func @ reached_sink_args_all args @ reached_sink_args_all kws)"
| "reached_sink_args (JoinedStr p values) = []"
| "reached_sink_args (Name p ident) = []"
| "reached_sink_args (Constant p c) = []"
| "reached_sink_args (Attribute p v attr) = reached_sink_args v"
| "reached_sink_args (FormattedValue p v conversion None) = reached_sink_args v"
| "reached_sink_args (FormattedValue p v conversion (Some spec)) =
     reached_sink_args v @ reached_sink_args spec"
| "reached_sink_args (Other children) = reached_sink_args_all children"
| "reached_sink_args_all [] = []"
| "reached_sink_args_all (n # ns) = reached_sink_args n @ reached_sink_args_all ns"

text \<open>The f-strings that are neither inside a translation call nor inside another f-string.\<close>

fun reached_fstrings :: "node \<Rightarrow> pos list"
  and reached_fstrings_all :: "node list \<Rightarrow> pos list" where
  "reached_fstrings (Call p func args kws) =
     (if is_translation_call func then []
      else reached_fstrings func @ reached_fstrings_all args @ reached_fstrings_all kws)"
| "reached_fstrings (JoinedStr p values) = [p]"
| "reached_fstrings (Name p ident) = []"
| "reached_fstrings (Constant p c) = []"
| "reached_fstrings (Attribute p v attr) = reached_fstrings v"
| "reached_fstrings (FormattedValue p v conversion None) = reached_fstrings v"
| "reached_fstrings (FormattedValue p v conversion (Some spec)) =
     reached_fstrings v @ reached_fstrings spec"
| "reached_fstrings (Other children) = reached_fstrings_all children"
| "reached_fstrings_all [] = []"
| "reached_fstrings_all (n # ns) = reached_fstrings n @ reached_fstrings_all ns"

text \<open>A candidate comes from what the traversal of a tree reaches.\<close>

fun from_reached :: "(pos \<times> pystr) list \<Rightarrow> pos list \<Rightarrow> candidate \<Rightarrow> bool" where
  "from_reached sinks fs (ConstantC loc line v) =
     list_ex (\<lambda>(q, w). loc = location_key q \<and> v = w) sinks"
| "from_reached sinks fs (JoinedStrC loc tmpl vars line) =
     list_ex (\<lambda>p. loc = location_key p) fs"

text \<open>
  \<open>extends sinks fs a a'\<close>: the analyzer \<open>a'\<close> has the lines of \<open>a\<close> and the candidates of
  \<open>a\<close> followed by new ones, each of which comes from \<open>sinks\<close> or \<open>fs\<close>.
\<close>

definition extends :: "(pos \<times> pystr) list \<Rightarrow> pos list \<Rightarrow> analyzer \<Rightarrow> analyzer \<Rightarrow> bool" where
  "extends sinks fs a a' \<longleftrightarrow>
     source_lines a' = source_lines a \<and>
     (\<exists>new. strings_to_convert a' = strings_to_convert a @ new \<and>
        (\<forall>c\<in>set new. from_reached sinks fs c))"

text \<open>A candidate of type \<open>Constant\<close> at a location.\<close>

fun literal_at :: "int \<times> int \<Rightarrow> candidate \<Rightarrow> bool" where
  "literal_at loc (ConstantC l line v) = (l = loc)"
| "literal_at loc (JoinedStrC l tmpl vars line) = False"

text \<open>The locations of the candidates \<open>analyze_file\<close> returns, in the order of its list.\<close>

definition found_locations :: "env \<Rightarrow> pystr \<Rightarrow> node \<Rightarrow> (int \<times> int) list" where
  "found_locations E source_code tree =
     (case analyze E source_code tree of Inl e \<Rightarrow> [] | Inr found \<Rightarrow> map cand_location found)"

subsection \<open>Concrete inputs\<close>

definition mk_conversion :: "int \<Rightarrow> int \<Rightarrow> int \<Rightarrow> int \<Rightarrow> pystr \<Rightarrow> conversion" where
  "mk_conversion sl sc el ec txt =
     \<lparr> start_line = sl, start_col = sc, end_line = el, end_col = ec, original_text = [],
       replacement_text = txt, template = [], variables = [] \<rparr>"

text \<open>Two lines, \<open>say(hi)\<close> and \<open>say(yo)\<close>, each ended by a line feed.\<close>

definition two_lines :: bytes where
  "two_lines = ''say(hi)'' @ [CHR 0x0A] @ ''say(yo)'' @ [CHR 0x0A]"

definition mk_pos :: "int \<Rightarrow> int \<Rightarrow> int \<Rightarrow> int \<Rightarrow> pos" where
  "mk_pos l c el ec = \<lparr> lineno = l, col_offset = c, end_lineno = el, end_col_offset = ec \<rparr>"

text \<open>
  \<open>ast.unparse\<close> and \<open>ast.parse\<close> on what the examples below hand to them: a name is
  written as its identifier, a format specifier made of one plain text as an f-string
  literal in single quotes, and an identifier parses to a name. The only code point above
  ASCII that \<open>repr\<close> meets in the examples is the control character U+0085, which is not
  printable. The texts the classifier meets in the examples are ASCII but for the check
  mark U+2705, which has no case and is no digit, so on them \<open>str.lower\<close>, \<open>str.isupper\<close>
  and \<open>str.isdigit\<close> are the ASCII ones.
\<close>

fun example_unparse :: "node \<Rightarrow> pystr" where
  "example_unparse (Name p ident) = ident"
| "example_unparse (JoinedStr p [Constant q (Str s)]) = asc ''f'' @ [39] @ s @ [39]"
| "example_unparse n = []"

definition example_env :: env where
  "example_env = \<lparr> unparse = example_unparse, parse_eval = (\<lambda>s. Some (Name no_pos s)),
     isprintable = (\<lambda>c. False), str_lower = ascii_lower, str_isupper = ascii_isupper,
     str_isdigit = ascii_isdigit \<rparr>"

definition new_converter :: "bool \<Rightarrow> converter" where
  "new_converter dry =
     \<lparr> dry_run = dry, backup = True,
       stats = \<lparr> files_scanned = 0, files_with_fstrings = 0, files_modified = 0,
                 fstrings_found = 0, fstrings_converted = 0, backups_created = 0 \<rparr>,
       all_conversions = [] \<rparr>"

definition to_bytes :: "pystr \<Rightarrow> bytes" where
  "to_bytes s = (case utf8_encode s of Some b \<Rightarrow> b | None \<Rightarrow> [])"

text \<open>
  The module \<open>print(f"Found {n} errors", "Operation complete now")\<close>, one line, with the
  tree and the positions Python 3.11 gives it.
\<close>

definition line_two_args :: pystr where
  "line_two_args = asc ''print(f'' @ [34] @ asc ''Found {n} errors'' @ [34] @ asc '', '' @ [34] @
     asc ''Operation complete now'' @ [34] @ asc '')''"

definition src_two_args :: pystr where
  "src_two_args = line_two_args @ [10]"

definition args_two_args :: "node list" where
  "args_two_args =
     [JoinedStr (mk_pos 1 6 1 25)
        [Constant (mk_pos 1 6 1 25) (Str (asc ''Found '')),
         FormattedValue (mk_pos 1 6 1 25) (Name (mk_pos 1 15 1 16) (asc ''n'')) (- 1) None,
         Constant (mk_pos 1 6 1 25) (Str (asc '' errors''))],
      Constant (mk_pos 1 27 1 51) (Str (asc ''Operation complete now''))]"

definition call_two_args :: node where
  "call_two_args = Call (mk_pos 1 0 1 52) (Name (mk_pos 1 0 1 5) (asc ''print'')) args_two_args []"

definition tree_two_args :: node where
  "tree_two_args = Other [Other [call_two_args]]"

text \<open>The analyzer after the visit of that tree.\<close>

definition after_two_args :: analyzer where
  "after_two_args =
     \<lparr> source_lines = [line_two_args],
       strings_to_convert =
         [ConstantC (1, 27) line_two_args (asc ''Operation complete now''),
          JoinedStrC (1, 6) (asc ''Found {} errors'') [asc ''n''] line_two_args],
       translated_locations = {(1, 27)} \<rparr>"

text \<open>
  The module \<open>f"Error: failed to install {x}", f"at {y}"\<close> and, below, the module the
  converter makes of it, \<open>_('Error: failed to install {}').format(x), f"at {y}"\<close>, each with
  its tree.
\<close>

definition line_first_run :: pystr where
  "line_first_run = asc ''f'' @ [34] @ asc ''Error: failed to install {x}'' @ [34] @ asc '', f'' @
     [34] @ asc ''at {y}'' @ [34]"

definition src_first_run :: pystr where
  "src_first_run = line_first_run @ [10]"

definition tree_first_run :: node where
  "tree_first_run =
     Other [Other [Other
       [JoinedStr (mk_pos 1 0 1 31)
          [Constant (mk_pos 1 0 1 31) (Str (asc ''Error: failed to install '')),
           FormattedValue (mk_pos 1 0 1 31) (Name (mk_pos 1 28 1 29) (asc ''x'')) (- 1) None],
        JoinedStr (mk_pos 1 33 1 42)
          [Constant (mk_pos 1 33 1 42) (Str (asc ''at '')),
           FormattedValue (mk_pos 1 33 1 42) (Name (mk_pos 1 39 1 40) (asc ''y'')) (- 1) None]]]]"

definition line_second_run :: pystr where
  "line_second_run = asc ''_('' @ [39] @ asc ''Error: failed to install {}'' @ [39] @
     asc '').format(x), f'' @ [34] @ asc ''at {y}'' @ [34]"

definition src_second_run :: pystr where
  "src_second_run = line_second_run @ [10]"

definition emitted_call :: node where
  "emitted_call =
     Call (mk_pos 1 0 1 42)
       (Attribute (mk_pos 1 0 1 39)
          (Call (mk_pos 1 0 1 32) (Name (mk_pos 1 0 1 1) (asc ''_''))
             [Constant (mk_pos 1 2 1 31) (Str (asc ''Error: failed to install {}''))] [])
          (asc ''format''))
       [Name (mk_pos 1 40 1 41) (asc ''x'')] []"

definition tree_second_run :: node where
  "tree_second_run =
     Other [Other [Other
       [emitted_call,
        JoinedStr (mk_pos 1 44 1 53)
          [Constant (mk_pos 1 44 1 53) (Str (asc ''at '')),
           FormattedValue (mk_pos 1 44 1 53) (Name (mk_pos 1 50 1 51) (asc ''y'')) (- 1) None]]]]"

text \<open>The module \<open>_('Title').prompt('Installation complete, press enter')\<close>.\<close>

definition line_prompt :: pystr where
  "line_prompt = asc ''_('' @ [39] @ asc ''Title'' @ [39] @ asc '').prompt('' @ [39] @
     asc ''Installation complete, press enter'' @ [39] @ asc '')''"

definition src_prompt :: pystr where
  "src_prompt = line_prompt @ [10]"

definition callee_prompt :: node where
  "callee_prompt =
     Attribute (mk_pos 1 0 1 17)
       (Call (mk_pos 1 0 1 10) (Name (mk_pos 1 0 1 1) (asc ''_''))
          [Constant (mk_pos 1 2 1 9) (Str (asc ''Title''))] [])
       (asc ''prompt'')"

definition tree_prompt :: node where
  "tree_prompt =
     Other [Other [Call (mk_pos 1 0 1 55) callee_prompt
       [Constant (mk_pos 1 18 1 54) (Str (asc ''Installation complete, press enter''))] []]]"

text \<open>
  The module \<open>print(f"Total: {x:>8.3f} items found")\<close>. Python 3.11 gives the format
  specifier, an f-string node of its own, the position of the whole f-string.
\<close>

definition src_format_spec :: pystr where
  "src_format_spec = asc ''print(f'' @ [34] @ asc ''Total: {x:>8.3f} items found'' @ [34] @
     asc '')'' @ [10]"

definition value_format_spec :: node where
  "value_format_spec =
     FormattedValue (mk_pos 1 6 1 37) (Name (mk_pos 1 16 1 17) (asc ''x'')) (- 1)
       (Some (JoinedStr (mk_pos 1 6 1 37) [Constant (mk_pos 1 6 1 37) (Str (asc ''>8.3f''))]))"

definition tree_format_spec :: node where
  "tree_format_spec =
     Other [Other [Call (mk_pos 1 0 1 38) (Name (mk_pos 1 0 1 5) (asc ''print''))
       [JoinedStr (mk_pos 1 6 1 37)
          [Constant (mk_pos 1 6 1 37) (Str (asc ''Total: '')), value_format_spec,
           Constant (mk_pos 1 6 1 37) (Str (asc '' items found''))]] []]]"

text \<open>
  The candidate the analyzer would hand on for that f-string if the classifier accepted
  its template, and the conversion the transformer records for it.
\<close>

definition cand_format_spec :: candidate where
  "cand_format_spec =
     JoinedStrC (1, 6) (asc ''Total: {:f'' @ [39] @ asc ''>8.3f'' @ [39] @ asc ''} items found'')
       [asc ''x''] (butlast src_format_spec)"

definition conv_format_spec :: conversion where
  "conv_format_spec =
     \<lparr> start_line = 1, start_col = 6, end_line = 1, end_col = 37,
       original_text = butlast src_format_spec,
       replacement_text = asc ''_('' @ [34] @ asc ''Total: {:f'' @ [39] @ asc ''>8.3f'' @ [39] @
         asc ''} items found'' @ [34] @ asc '').format(x)'',
       template = asc ''Total: {:f'' @ [39] @ asc ''>8.3f'' @ [39] @ asc ''} items found'',
       variables = [asc ''x''] \<rparr>"

section \<open>Properties\<close>

lemma py_slice_nonneg:
  "0 \<le> i \<Longrightarrow> 0 \<le> j \<Longrightarrow> py_slice xs i j = take (nat j - nat i) (drop (nat i) xs)"
  by (auto simp: py_slice_def slice_bound_def Let_def min_def)

subsection \<open>Line index\<close>

lemma concat_splitlines: "concat (splitlines_keepends cur src) = cur @ src"
  by (induction cur src rule: splitlines_keepends.induct) auto

lemma length_line_starts_from: "length (line_starts_from p lines) = length lines"
  by (induction lines arbitrary: p) auto

lemma line_starts_from_nth:
  "k < length lines \<Longrightarrow> line_starts_from p lines ! k = p + int (length (concat (take (Suc k) lines)))"
proof (induction lines arbitrary: p k)
  case Nil then show ?case by simp
next
  case (Cons l ls)
  show ?case
  proof (cases k)
    case 0 then show ?thesis by simp
  next
    case (Suc m)
    with Cons.prems have "m < length ls" by simp
    from Cons.IH[OF this] Suc show ?thesis by simp
  qed
qed

lemma starts_nth:
  "k \<le> length lines \<Longrightarrow> (0 # line_starts_from 0 lines) ! k = int (length (concat (take k lines)))"
  by (cases k) (simp_all add: line_starts_from_nth)

lemma py_index_starts:
  assumes "1 \<le> l" "l \<le> int (length lines)"
  shows "py_index (0 # line_starts_from 0 lines) (l - 1) = Inr (int (length (concat (take (nat (l - 1)) lines))))"
proof -
  have "nat (l - 1) \<le> length lines" using assms by linarith
  from starts_nth[OF this] show ?thesis using assms
    by (simp add: py_index_def Let_def length_line_starts_from)
qed

lemma splice_snoc:
  "splice src pos (xs @ [(s, e, t)]) hi = splice src pos xs s @ t @ take (hi - e) (drop e src)"
  by (induction src pos xs s rule: splice.induct) auto

lemma offset_mono:
  assumes "valid_pos lines l c" "valid_pos lines l' c'" "(l, c) \<le> (l', c')"
  shows "offset_of lines l c \<le> offset_of lines l' c'"
proof (cases "l = l'")
  case True
  with assms show ?thesis by (auto simp: offset_of_def valid_pos_def)
next
  case False
  with assms have lt: "l < l'" by (auto simp: less_eq_prod_def)
  define k where "k = nat (l - 1)"
  define k' where "k' = nat (l' - 1)"
  have k: "k < k'" "k' < length lines" "k < length lines"
    using lt assms by (auto simp: k_def k'_def valid_pos_def)
  have "take (Suc k) lines = take k lines @ [lines ! k]"
    using k by (simp add: take_Suc_conv_app_nth)
  then have a: "length (concat (take (Suc k) lines)) = length (concat (take k lines)) + length (lines ! k)"
    by simp
  have "take k' lines = take (Suc k) lines @ drop (Suc k) (take k' lines)"
    using k by (metis Suc_leI append_take_drop_id min.absorb2 take_take min.commute)
  then have "length (concat (take k' lines)) = length (concat (take (Suc k) lines)) + length (concat (drop (Suc k) (take k' lines)))"
    by (metis concat_append length_append)
  then have b: "length (concat (take (Suc k) lines)) \<le> length (concat (take k' lines))" by simp
  have "nat c \<le> length (lines ! k)" using assms by (auto simp: valid_pos_def k_def)
  with a b show ?thesis by (simp add: offset_of_def k_def[symmetric] k'_def[symmetric])
qed

subsection \<open>The walk over descending spans\<close>

lemma patch_loop_desc:
  assumes "\<forall>r\<in>set ds. valid_conversion src r"
    and "sorted_wrt (>) (map (span_start src) ds)"
    and "\<forall>r\<in>set ds. int (span_start src r) < last_pos"
    and "0 \<le> last_pos"
  shows "\<exists>parts' last'. patch_loop path src (line_start_indices src) ds parts last_pos convs
            = (Inr (parts', last'), convs @ map (mk_result path) ds)
          \<and> 0 \<le> last'
          \<and> take (nat last') src @ concat (rev parts')
              = splice src 0 (rev (map (span_of src) ds)) (nat last_pos) @ concat (rev parts)"
  using assms
proof (induction ds arbitrary: parts last_pos convs)
  case Nil
  then show ?case by simp
next
  case (Cons r rs)
  let ?lines = "splitlines_keepends [] src"
  from Cons.prems(1) have v: "valid_conversion src r" by simp
  then obtain b where b: "utf8_encode (replacement_text r) = Some b"
    by (auto simp: valid_conversion_def)
  have sb: "py_index (line_start_indices src) (start_line r - 1)
      = Inr (int (length (concat (take (nat (start_line r - 1)) ?lines))))"
    unfolding line_start_indices_def using v
    by (intro py_index_starts) (auto simp: valid_conversion_def valid_pos_def)
  have eb: "py_index (line_start_indices src) (end_line r - 1)
      = Inr (int (length (concat (take (nat (end_line r - 1)) ?lines))))"
    unfolding line_start_indices_def using v
    by (intro py_index_starts) (auto simp: valid_conversion_def valid_pos_def)
  have s: "int (length (concat (take (nat (start_line r - 1)) ?lines))) + start_col r = int (span_start src r)"
    using v by (auto simp: span_start_def offset_of_def valid_conversion_def valid_pos_def)
  have e: "int (length (concat (take (nat (end_line r - 1)) ?lines))) + end_col r = int (span_end src r)"
    using v by (auto simp: span_end_def offset_of_def valid_conversion_def valid_pos_def)
  have lt: "int (span_start src r) < last_pos" using Cons.prems(3) by simp
  have step: "patch_loop path src (line_start_indices src) (r # rs) parts last_pos convs
      = patch_loop path src (line_start_indices src) rs
          (parts @ [py_slice src (int (span_end src r)) last_pos, b]) (int (span_start src r))
          (convs @ [mk_result path r])"
    using lt by (simp add: sb eb s e b Let_def)
  have p1: "\<forall>r\<in>set rs. valid_conversion src r" using Cons.prems(1) by simp
  have p2: "sorted_wrt (>) (map (span_start src) rs)" using Cons.prems(2) by simp
  have p3: "\<forall>r'\<in>set rs. int (span_start src r') < int (span_start src r)"
    using Cons.prems(2) by auto
  have p4: "0 \<le> int (span_start src r)" by simp
  from Cons.IH[OF p1 p2 p3 p4, of "parts @ [py_slice src (int (span_end src r)) last_pos, b]" "convs @ [mk_result path r]"]
  obtain parts' last' where
    loop: "patch_loop path src (line_start_indices src) rs
          (parts @ [py_slice src (int (span_end src r)) last_pos, b]) (int (span_start src r))
          (convs @ [mk_result path r]) = (Inr (parts', last'), (convs @ [mk_result path r]) @ map (mk_result path) rs)"
    and nn: "0 \<le> last'"
    and tx: "take (nat last') src @ concat (rev parts')
        = splice src 0 (rev (map (span_of src) rs)) (nat (int (span_start src r)))
          @ concat (rev (parts @ [py_slice src (int (span_end src r)) last_pos, b]))"
    by blast
  have lp: "0 \<le> last_pos" using lt by linarith
  have sl: "py_slice src (int (span_end src r)) last_pos = take (nat last_pos - span_end src r) (drop (span_end src r) src)"
    using py_slice_nonneg[of "int (span_end src r)" last_pos src] lp by simp
  have enc: "encoded r = b" by (simp add: encoded_def b)
  have "take (nat last') src @ concat (rev parts')
      = splice src 0 (rev (map (span_of src) (r # rs))) (nat last_pos) @ concat (rev parts)"
    using tx by (simp add: splice_snoc span_of_def sl enc)
  with loop nn step show ?case by simp
qed

subsection \<open>Sorting by position is sorting by offset\<close>

lemma filter_key_distinct:
  "distinct (map f zs) \<Longrightarrow> k \<in> set zs \<Longrightarrow> filter (\<lambda>x. f k = f x) zs = [k]"
proof (induction zs)
  case Nil then show ?case by simp
next
  case (Cons z zs)
  show ?case
  proof (cases "k = z")
    case True
    have "filter (\<lambda>x. f z = f x) zs = []"
      using Cons.prems(1) by (auto simp: filter_empty_conv)
    with True show ?thesis by simp
  next
    case False
    with Cons.prems have kin: "k \<in> set zs" by simp
    with Cons.prems(1) have "f k \<noteq> f z" by (metis distinct.simps(2) image_eqI list.simps(9) set_map)
    with Cons.IH kin Cons.prems(1) show ?thesis by simp
  qed
qed

lemma sorted_map_mono:
  "sorted (map K ys) \<Longrightarrow> (\<forall>x\<in>set ys. \<forall>y\<in>set ys. K x \<le> K y \<longrightarrow> S x \<le> S y)
     \<Longrightarrow> sorted (map S ys)"
  by (induction ys) auto

lemma distinct_starts:
  assumes "non_overlapping src reps" "\<forall>r\<in>set reps. span_start src r < span_end src r"
  shows "distinct (map (span_start src) reps)"
proof -
  have "\<forall>i<length reps. \<forall>j<length reps. i \<noteq> j \<longrightarrow> span_start src (reps ! i) \<noteq> span_start src (reps ! j)"
  proof (intro allI impI)
    fix i j assume ij: "i < length reps" "j < length reps" "i \<noteq> j"
    from assms(1) ij have "span_end src (reps ! i) \<le> span_start src (reps ! j) \<or>
        span_end src (reps ! j) \<le> span_start src (reps ! i)"
      by (simp add: non_overlapping_def)
    moreover have "span_start src (reps ! i) < span_end src (reps ! i)"
      "span_start src (reps ! j) < span_end src (reps ! j)" using assms(2) ij by auto
    ultimately show "span_start src (reps ! i) \<noteq> span_start src (reps ! j)" by linarith
  qed
  then show ?thesis by (simp add: distinct_conv_nth)
qed

lemma sorted_reverse_by_offset:
  assumes v: "\<forall>r\<in>set reps. valid_conversion src r"
    and d: "distinct (map (span_start src) reps)"
  shows "sorted_reverse reps = rev (sort_key (span_start src) reps)"
proof -
  let ?S = "span_start src"
  let ?ys = "sort_key sort_key_of (rev reps)"
  have m: "mset ?ys = mset reps" by simp
  have s1: "sorted (map sort_key_of ?ys)" by simp
  have mono: "\<forall>x\<in>set ?ys. \<forall>y\<in>set ?ys. sort_key_of x \<le> sort_key_of y \<longrightarrow> ?S x \<le> ?S y"
  proof (intro ballI impI)
    fix x y assume "x \<in> set ?ys" "y \<in> set ?ys" and le: "sort_key_of x \<le> sort_key_of y"
    then have "valid_conversion src x" "valid_conversion src y" using v by auto
    then show "?S x \<le> ?S y" using le
      unfolding span_start_def sort_key_of_def valid_conversion_def
      by (intro offset_mono) auto
  qed
  have s2: "sorted (map ?S ?ys)" using sorted_map_mono[OF s1 mono] .
  have "mset (map ?S ?ys) = mset (map ?S reps)" using m by (metis mset_map)
  then have d2: "distinct (map ?S ?ys)" using d by (metis mset_eq_imp_distinct_iff)
  have "sort_key ?S reps = ?ys"
  proof (rule properties_for_sort_key[OF m _ s2])
    fix k assume k: "k \<in> set ?ys"
    then have k': "k \<in> set reps" by simp
    show "filter (\<lambda>x. ?S k = ?S x) ?ys = filter (\<lambda>x. ?S k = ?S x) reps"
      using filter_key_distinct[OF d2 k] filter_key_distinct[OF d k'] by simp
  qed
  then show ?thesis by (simp add: sorted_reverse_def)
qed

lemma patch_bytes_splice:
  assumes v: "\<forall>r\<in>set reps. valid_conversion src r"
    and ne: "\<forall>r\<in>set reps. span_start src r < span_end src r"
    and no: "non_overlapping src reps"
  shows "patch_bytes path src reps convs =
     (Inr (splice src 0 (map (span_of src) (sort_key (span_start src) reps)) (length src)),
      convs @ map (mk_result path) (rev (sort_key (span_start src) reps)))"
proof -
  let ?S = "span_start src"
  let ?ds = "rev (sort_key ?S reps)"
  have d: "distinct (map ?S reps)" using distinct_starts[OF no ne] .
  have sr: "sorted_reverse reps = ?ds" using sorted_reverse_by_offset[OF v d] .
  have "mset (map ?S (sort_key ?S reps)) = mset (map ?S reps)" by (metis mset_map mset_sort)
  then have "distinct (map ?S (sort_key ?S reps))" using d by (metis mset_eq_imp_distinct_iff)
  then have "sorted_wrt (<) (map ?S (sort_key ?S reps))"
    by (simp add: strict_sorted_iff)
  then have a2: "sorted_wrt (>) (map ?S ?ds)"
    by (simp add: rev_map[symmetric] sorted_wrt_rev)
  have a1: "\<forall>r\<in>set ?ds. valid_conversion src r" using v by simp
  have len: "concat (splitlines_keepends [] src) = src" by (simp add: concat_splitlines)
  have a3: "\<forall>r\<in>set ?ds. int (?S r) < int (length src)"
  proof
    fix r assume "r \<in> set ?ds"
    then have r: "r \<in> set reps" by simp
    let ?lines = "splitlines_keepends [] src"
    have vr: "valid_pos ?lines (end_line r) (end_col r)" using v r by (simp add: valid_conversion_def)
    define k where "k = nat (end_line r - 1)"
    have k: "k < length ?lines" "nat (end_col r) \<le> length (?lines ! k)"
      using vr by (auto simp: valid_pos_def k_def)
    have "take (Suc k) ?lines = take k ?lines @ [?lines ! k]"
      using k by (simp add: take_Suc_conv_app_nth)
    then have "length (concat (take (Suc k) ?lines)) = length (concat (take k ?lines)) + length (?lines ! k)"
      by simp
    moreover have "length (concat (take (Suc k) ?lines)) \<le> length (concat ?lines)"
      by (metis append_take_drop_id concat_append length_append le_add1)
    ultimately have "span_end src r \<le> length src"
      using k len by (simp add: span_end_def offset_of_def k_def[symmetric])
    with ne r show "int (?S r) < int (length src)" by fastforce
  qed
  have a4: "0 \<le> int (length src)" by simp
  from patch_loop_desc[OF a1 a2 a3 a4, of path "[]" convs]
  obtain parts' last' where
    lp: "patch_loop path src (line_start_indices src) ?ds [] (int (length src)) convs
          = (Inr (parts', last'), convs @ map (mk_result path) ?ds)"
    and nn: "0 \<le> last'"
    and tx: "take (nat last') src @ concat (rev parts')
              = splice src 0 (rev (map (span_of src) ?ds)) (nat (int (length src))) @ concat (rev [])"
    by auto
  have "py_slice src 0 last' = take (nat last') src"
    using py_slice_nonneg[of 0 last' src] nn by simp
  then show ?thesis
    using lp tx by (simp add: patch_bytes_def sr rev_map)
qed

subsection \<open>The classifier's early returns\<close>

lemma pure_formatting_rejected:
  "py_strip content \<in> set pure_formatting_patterns \<Longrightarrow> is_user_facing_string E content context = False"
  unfolding is_user_facing_string_def Let_def by (simp only: if_True)

lemma technical_rejected:
  "list_ex (\<lambda>pattern. is_substr pattern (str_lower E content)) technical_patterns
     \<Longrightarrow> is_user_facing_string E content context = False"
  unfolding is_user_facing_string_def Let_def by (simp only: if_True if_cancel split: if_splits)

lemmas cls_defs = asc_def py_strip_def strip_chars_def is_space_def ascii_lower_def ascii_lower_cp_def
  py_split_def pure_formatting_patterns_def output_formatting_def single_emoji_formatting_def
  technical_patterns_def user_emojis_def emoji_strip_set_def user_facing_patterns_def
  ascii_isupper_def ascii_isdigit_def example_env_def

lemma emoji_text_accepted:
  assumes "py_strip content \<notin> set pure_formatting_patterns"
    and "\<not> (length (remdups (py_strip content)) = 1 \<and> hd (py_strip content) \<in> set (asc ''=-_~''))"
    and "py_strip (str_lower E content) \<notin> set (map (str_lower E) output_formatting)"
    and "\<not> (concat (py_split content) \<in> set single_emoji_formatting \<or>
           (length (concat (py_split content)) \<le> 3 \<and>
            list_all (\<lambda>c. c \<in> set (concat single_emoji_formatting)) (concat (py_split content))))"
    and "\<not> (py_strip content = [] \<or> content \<in> set [[10], [10, 10], [9], [32]])"
    and "\<not> list_ex (\<lambda>pattern. is_substr pattern (str_lower E content)) technical_patterns"
    and "\<not> ((47 \<in> set content \<or> 92 \<in> set content) \<and> 32 \<notin> set content)"
    and "list_ex (\<lambda>char. is_substr char content) user_emojis \<and>
         length (filter (\<lambda>word. strip_chars (\<lambda>c. c \<in> set emoji_strip_set) word \<noteq> [])
                    (py_split content)) > 0"
  shows "is_user_facing_string E content context = True"
  unfolding is_user_facing_string_def Let_def
  using assms by (simp only: if_False if_True simp_thms)


subsection \<open>The traversal only appends, and only what it reaches\<close>

lemma from_reached_mono:
  "from_reached sinks fs c \<Longrightarrow> set sinks \<subseteq> set sinks' \<Longrightarrow> set fs \<subseteq> set fs'
     \<Longrightarrow> from_reached sinks' fs' c"
  by (cases c) (auto simp: list_ex_iff)

lemma scan_args_skip:
  assumes "\<not> (\<exists>p v. arg = Constant p (Str v))"
  shows "scan_args E (arg # args) a = scan_args E args a"
proof (cases arg)
  case (Constant p c)
  with assms show ?thesis by (cases c) auto
qed auto

lemma const_args_skip:
  assumes "\<not> (\<exists>p v. arg = Constant p (Str v))"
  shows "const_args (arg # args) = const_args args"
proof (cases arg)
  case (Constant p c)
  with assms show ?thesis by (cases c) auto
qed auto

lemma extends_refl: "extends sinks fs a a"
  by (simp add: extends_def)

lemma extends_trans:
  assumes "extends s1 f1 a b" "extends s2 f2 b c"
    and "set s1 \<subseteq> set s" "set s2 \<subseteq> set s" "set f1 \<subseteq> set f" "set f2 \<subseteq> set f"
  shows "extends s f a c"
proof -
  from assms(1) obtain n1 where n1: "source_lines b = source_lines a"
    "strings_to_convert b = strings_to_convert a @ n1" "\<forall>c\<in>set n1. from_reached s1 f1 c"
    by (auto simp: extends_def)
  from assms(2) obtain n2 where n2: "source_lines c = source_lines b"
    "strings_to_convert c = strings_to_convert b @ n2" "\<forall>c\<in>set n2. from_reached s2 f2 c"
    by (auto simp: extends_def)
  have "\<forall>c\<in>set (n1 @ n2). from_reached s f c"
    using n1(3) n2(3) assms(3-6) by (auto intro: from_reached_mono)
  moreover have "strings_to_convert c = strings_to_convert a @ (n1 @ n2)" using n1 n2 by simp
  ultimately show ?thesis unfolding extends_def using n1(1) n2(1) by metis
qed

lemma extends_mono:
  "extends s1 f1 a b \<Longrightarrow> set s1 \<subseteq> set s \<Longrightarrow> set f1 \<subseteq> set f \<Longrightarrow> extends s f a b"
  using extends_trans[of s1 f1 a b "[]" "[]" b s f] by (simp add: extends_refl)

lemma scan_args_sound:
  "scan_args E args a = Inr a' \<Longrightarrow> extends (const_args args) [] a a'"
proof (induction args arbitrary: a a')
  case Nil
  then show ?case by (simp add: extends_refl)
next
  case (Cons arg args)
  show ?case
  proof (cases "\<exists>p v. arg = Constant p (Str v)")
    case False
    with Cons show ?thesis by (simp add: scan_args_skip const_args_skip)
  next
    case True
    then obtain p v where arg: "arg = Constant p (Str v)" by blast
    show ?thesis
    proof (cases "location_key p \<in> translated_locations a")
      case True
      with Cons.prems arg have "scan_args E args a = Inr a'" by simp
      from Cons.IH[OF this] show ?thesis
        by (rule extends_mono) (auto simp: arg)
    next
      case False
      show ?thesis
      proof (cases "py_index (source_lines a) (lineno p - 1)")
        case (Inl e)
        with False Cons.prems arg show ?thesis by simp
      next
        case (Inr line)
        show ?thesis
        proof (cases "is_user_facing_string E v line")
          case f: False
          with Cons.prems arg False Inr have "scan_args E args a = Inr a'" by simp
          from Cons.IH[OF this] show ?thesis
            by (rule extends_mono) (auto simp: arg)
        next
          case True
          let ?a1 = "a\<lparr> strings_to_convert :=
                      strings_to_convert a @ [ConstantC (location_key p) (py_strip line) v],
                    translated_locations := insert (location_key p) (translated_locations a) \<rparr>"
          from Cons.prems arg False Inr True have s: "scan_args E args ?a1 = Inr a'" by simp
          have e1: "extends [(p, v)] [] a ?a1" by (simp add: extends_def)
          have "extends ((p, v) # const_args args) [] a a'"
            by (rule extends_trans[OF e1 Cons.IH[OF s]]) auto
          then show ?thesis by (simp add: arg)
        qed
      qed
    qed
  qed
qed

lemma visit_JoinedStr_sound:
  assumes "visit_JoinedStr E p values a = Inr a'"
  shows "extends [] [p] a a'"
proof (cases "location_key p \<in> translated_locations a")
  case True
  with assms show ?thesis by (simp add: visit_JoinedStr_def extends_refl)
next
  case False
  from assms False show ?thesis
    by (auto simp: visit_JoinedStr_def extends_def split: sum.splits prod.splits if_splits)
qed

lemma visit_sound:
  "visit E n a = Inr a' \<Longrightarrow> extends (reached_sink_args n) (reached_fstrings n) a a'"
  "visit_all E ns a = Inr a' \<Longrightarrow> extends (reached_sink_args_all ns) (reached_fstrings_all ns) a a'"
proof (induction E n a and E ns a arbitrary: a' and a' rule: visit_visit_all.induct)
  case (1 E p func args kws a)
  show ?case
  proof (cases "is_translation_call func")
    case True
    with "1.prems" show ?thesis by (auto simp: extends_def)
  next
    case False
    let ?sc = "if func_name_of func \<in> user_facing_funcs then scan_args E args a else Inr a"
    from "1.prems" False obtain a1 a2 a3 where
      s1: "?sc = Inr a1" and s2: "visit E func a1 = Inr a2"
      and s3: "visit_all E args a2 = Inr a3" and s4: "visit_all E kws a3 = Inr a'"
      by (auto split: sum.splits)
    let ?S = "reached_sink_args (Call p func args kws)"
    let ?F = "reached_fstrings (Call p func args kws)"
    have e1: "extends (if func_name_of func \<in> user_facing_funcs then const_args args else []) [] a a1"
      using s1 by (auto split: if_splits simp: scan_args_sound extends_refl)
    have e2: "extends (reached_sink_args func) (reached_fstrings func) a1 a2"
      using "1.IH"(1)[OF False s1 s2] .
    have e3: "extends (reached_sink_args_all args) (reached_fstrings_all args) a2 a3"
      using "1.IH"(2)[OF False s1 s2 s3] .
    have e4: "extends (reached_sink_args_all kws) (reached_fstrings_all kws) a3 a'"
      using "1.IH"(3)[OF False s1 s2 s3 s4] .
    have e12: "extends ?S ?F a a2"
      by (rule extends_trans[OF e1 e2]) (use False in auto)
    have e34: "extends ?S ?F a3 a'"
      by (rule extends_mono[OF e4]) (use False in auto)
    have e123: "extends ?S ?F a a3"
      by (rule extends_trans[OF e12 e3]) (use False in auto)
    show ?thesis
      by (rule extends_trans[OF e123 e34]) auto
  qed
next
  case (2 E p "values" a)
  then show ?case by (simp add: visit_JoinedStr_sound)
next
  case (3 E p ident a)
  then show ?case by (auto simp: extends_refl)
next
  case (4 E p c a)
  then show ?case by (auto simp: extends_refl)
next
  case (5 E p v attr a)
  then show ?case by simp
next
  case (6 E p v conversion a)
  then show ?case by simp
next
  case (7 E p v conversion spec a)
  from "7.prems" obtain a1 where s1: "visit E v a = Inr a1" and s2: "visit E spec a1 = Inr a'"
    by (auto split: sum.splits)
  show ?case
    using extends_trans[OF "7.IH"(1)[OF s1] "7.IH"(2)[OF s1 s2]] by simp
next
  case (8 E children a)
  then show ?case by simp
next
  case (9 E a)
  then show ?case by (auto simp: extends_refl)
next
  case (10 E n ns a)
  from "10.prems" obtain a1 where s1: "visit E n a = Inr a1" and s2: "visit_all E ns a1 = Inr a'"
    by (auto split: sum.splits)
  show ?case
    using extends_trans[OF "10.IH"(1)[OF s1] "10.IH"(2)[OF s1 s2]] by simp
qed

subsection \<open>A sink call takes its accepted string constants\<close>

lemma scan_args_step:
  "scan_args E (Constant p (Str v) # args) a = Inr a1 \<Longrightarrow>
     \<exists>a0. scan_args E args a0 = Inr a1 \<and> source_lines a0 = source_lines a \<and>
       translated_locations a \<subseteq> translated_locations a0 \<and>
       (\<forall>loc. (loc \<in> translated_locations a \<longrightarrow> list_ex (literal_at loc) (strings_to_convert a))
          \<longrightarrow> (loc \<in> translated_locations a0 \<longrightarrow> list_ex (literal_at loc) (strings_to_convert a0))) \<and>
       (\<forall>line. py_index (source_lines a) (lineno p - 1) = Inr line \<and> is_user_facing_string E v line
          \<longrightarrow> location_key p \<in> translated_locations a0)"
  by (auto split: if_splits sum.splits)

lemma scan_args_marked:
  "scan_args E args a = Inr a1 \<Longrightarrow>
     (loc \<in> translated_locations a \<longrightarrow> list_ex (literal_at loc) (strings_to_convert a)) \<Longrightarrow>
     (loc \<in> translated_locations a1 \<longrightarrow> list_ex (literal_at loc) (strings_to_convert a1))"
proof (induction args arbitrary: a)
  case Nil
  then show ?case by simp
next
  case (Cons arg args)
  show ?case
  proof (cases "\<exists>p v. arg = Constant p (Str v)")
    case False
    with Cons show ?thesis by (simp add: scan_args_skip)
  next
    case True
    then obtain p v where arg: "arg = Constant p (Str v)" by blast
    from scan_args_step[OF Cons.prems(1)[unfolded arg]] obtain a0 where
      a0: "scan_args E args a0 = Inr a1"
      "\<forall>loc. (loc \<in> translated_locations a \<longrightarrow> list_ex (literal_at loc) (strings_to_convert a))
          \<longrightarrow> (loc \<in> translated_locations a0 \<longrightarrow> list_ex (literal_at loc) (strings_to_convert a0))"
      by blast
    from a0(2) Cons.prems(2)
    have "loc \<in> translated_locations a0 \<longrightarrow> list_ex (literal_at loc) (strings_to_convert a0)"
      by blast
    from Cons.IH[OF a0(1) this] show ?thesis .
  qed
qed

lemma scan_args_grows:
  "scan_args E args a = Inr a1 \<Longrightarrow> translated_locations a \<subseteq> translated_locations a1"
proof (induction args arbitrary: a)
  case Nil
  then show ?case by simp
next
  case (Cons arg args)
  show ?case
  proof (cases "\<exists>p v. arg = Constant p (Str v)")
    case False
    with Cons show ?thesis by (simp add: scan_args_skip)
  next
    case True
    then obtain p v where arg: "arg = Constant p (Str v)" by blast
    from scan_args_step[OF Cons.prems(1)[unfolded arg]] obtain a0 where
      a0: "scan_args E args a0 = Inr a1" "translated_locations a \<subseteq> translated_locations a0"
      by blast
    from Cons.IH[OF a0(1)] a0(2) show ?thesis by blast
  qed
qed

lemma scan_args_accepts:
  "scan_args E args a = Inr a1 \<Longrightarrow> Constant q (Str v) \<in> set args \<Longrightarrow>
     py_index (source_lines a) (lineno q - 1) = Inr line \<Longrightarrow> is_user_facing_string E v line \<Longrightarrow>
     location_key q \<in> translated_locations a1"
proof (induction args arbitrary: a)
  case Nil
  then show ?case by simp
next
  case (Cons arg args)
  show ?case
  proof (cases "\<exists>p w. arg = Constant p (Str w)")
    case False
    with Cons.prems have "scan_args E args a = Inr a1" "Constant q (Str v) \<in> set args"
      by (auto simp: scan_args_skip)
    from Cons.IH[OF this Cons.prems(3,4)] show ?thesis .
  next
    case True
    then obtain p w where arg: "arg = Constant p (Str w)" by blast
    from scan_args_step[OF Cons.prems(1)[unfolded arg]] obtain a0 where
      a0: "scan_args E args a0 = Inr a1" "source_lines a0 = source_lines a"
      "\<forall>line. py_index (source_lines a) (lineno p - 1) = Inr line \<and> is_user_facing_string E w line
          \<longrightarrow> location_key p \<in> translated_locations a0"
      by blast
    show ?thesis
    proof (cases "arg = Constant q (Str v)")
      case True
      with arg a0(3) Cons.prems(3,4) have "location_key q \<in> translated_locations a0" by auto
      with scan_args_grows[OF a0(1)] show ?thesis by blast
    next
      case False
      with Cons.prems(2) have "Constant q (Str v) \<in> set args" by simp
      from Cons.IH[OF a0(1) this] Cons.prems(3,4) a0(2) show ?thesis by simp
    qed
  qed
qed

lemma extends_keeps:
  "extends s f a a' \<Longrightarrow> list_ex P (strings_to_convert a) \<Longrightarrow> list_ex P (strings_to_convert a')"
  by (auto simp: extends_def list_ex_iff)

lemma sink_call_complete:
  assumes v: "visit E (Call p func args kws) a = Inr a'"
    and nt: "\<not> is_translation_call func"
    and sink: "func_name_of func \<in> user_facing_funcs"
    and arg: "Constant q (Str v) \<in> set args"
    and fresh: "location_key q \<notin> translated_locations a"
    and line: "py_index (source_lines a) (lineno q - 1) = Inr line"
    and acc: "is_user_facing_string E v line"
  shows "list_ex (literal_at (location_key q)) (strings_to_convert a')"
proof -
  from v nt sink obtain a1 a2 a3 where
    s1: "scan_args E args a = Inr a1" and s2: "visit E func a1 = Inr a2"
    and s3: "visit_all E args a2 = Inr a3" and s4: "visit_all E kws a3 = Inr a'"
    by (auto split: sum.splits)
  have "location_key q \<in> translated_locations a1"
    using scan_args_accepts[OF s1 arg line acc] .
  moreover have "location_key q \<in> translated_locations a1 \<longrightarrow>
      list_ex (literal_at (location_key q)) (strings_to_convert a1)"
    using scan_args_marked[OF s1] fresh by blast
  ultimately have "list_ex (literal_at (location_key q)) (strings_to_convert a1)" by blast
  then have "list_ex (literal_at (location_key q)) (strings_to_convert a2)"
    using extends_keeps[OF visit_sound(1)[OF s2]] by blast
  then have "list_ex (literal_at (location_key q)) (strings_to_convert a3)"
    using extends_keeps[OF visit_sound(2)[OF s3]] by blast
  then show ?thesis
    using extends_keeps[OF visit_sound(2)[OF s4]] by blast
qed

subsection \<open>Claim C1\<close>

text \<open>
  C1. With no replacement the patch engine returns the input bytes. With replacements
  whose spans do not overlap, the output is the input with every span, from left to
  right, replaced by the bytes of its text: the input bytes before the first span, the
  first text, the input bytes between the first and the second span, and so on up to the
  input bytes after the last span. The replacements are those the transformer records:
  their positions lie inside the file, their texts can be encoded, and their spans are
  those of string literals, which are not empty.
\<close>

theorem patch_bytes_nonempty_disjoint:
  "fst (patch_bytes path src [] convs) = Inr src \<and>
   ((\<forall>r\<in>set reps. valid_conversion src r \<and> span_start src r < span_end src r) \<and>
    non_overlapping src reps \<longrightarrow>
    fst (patch_bytes path src reps convs) =
      Inr (splice src 0 (map (span_of src) (sort_key (span_start src) reps)) (length src)))"
proof (intro conjI impI)
  have "py_slice src 0 (int (length src)) = src"
    using py_slice_nonneg[of 0 "int (length src)" src] by simp
  then show "fst (patch_bytes path src [] convs) = Inr src"
    by (simp add: patch_bytes_def sorted_reverse_def)
next
  assume h: "(\<forall>r\<in>set reps. valid_conversion src r \<and> span_start src r < span_end src r) \<and>
    non_overlapping src reps"
  then have "\<forall>r\<in>set reps. valid_conversion src r"
    and "\<forall>r\<in>set reps. span_start src r < span_end src r"
    and "non_overlapping src reps" by auto
  from patch_bytes_splice[OF this, of path convs]
  show "fst (patch_bytes path src reps convs) =
      Inr (splice src 0 (map (span_of src) (sort_key (span_start src) reps)) (length src))"
    by simp
qed

theorem patch_bytes_nonempty_disjoint_witness:
  "valid_conversion two_lines (mk_conversion 2 4 2 6 (asc ''there'')) \<and>
   valid_conversion two_lines (mk_conversion 1 4 1 6 (asc ''X'')) \<and>
   span_start two_lines (mk_conversion 2 4 2 6 (asc ''there''))
     < span_end two_lines (mk_conversion 2 4 2 6 (asc ''there'')) \<and>
   span_start two_lines (mk_conversion 1 4 1 6 (asc ''X''))
     < span_end two_lines (mk_conversion 1 4 1 6 (asc ''X'')) \<and>
   non_overlapping two_lines [mk_conversion 2 4 2 6 (asc ''there''), mk_conversion 1 4 1 6 (asc ''X'')] \<and>
   fst (patch_bytes [] two_lines [mk_conversion 2 4 2 6 (asc ''there''), mk_conversion 1 4 1 6 (asc ''X'')] [])
     = Inr (''say(X)'' @ [CHR 0x0A] @ ''say(there)'' @ [CHR 0x0A])"
proof -
  let ?a = "mk_conversion 2 4 2 6 (asc ''there'')"
  let ?b = "mk_conversion 1 4 1 6 (asc ''X'')"
  have h: "valid_conversion two_lines ?a \<and> valid_conversion two_lines ?b \<and>
      span_start two_lines ?a < span_end two_lines ?a \<and>
      span_start two_lines ?b < span_end two_lines ?b \<and> non_overlapping two_lines [?a, ?b]"
    by code_simp
  have v: "splice two_lines 0 (map (span_of two_lines) (sort_key (span_start two_lines) [?a, ?b]))
      (length two_lines) = ''say(X)'' @ [CHR 0x0A] @ ''say(there)'' @ [CHR 0x0A]"
    by code_simp
  from patch_bytes_nonempty_disjoint[of "[]" two_lines "[]" "[?a, ?b]"] h
  have "fst (patch_bytes [] two_lines [?a, ?b] []) =
      Inr (splice two_lines 0 (map (span_of two_lines) (sort_key (span_start two_lines) [?a, ?b]))
        (length two_lines))"
    by simp
  with h v show ?thesis by simp
qed

subsection \<open>Evaluation of the examples\<close>

lemmas eval_defs = is_user_facing_string_def Let_def cls_defs
lemmas an_defs = analyze_def new_analyzer_def user_facing_funcs_def visit_JoinedStr_def location_key_def mk_pos_def py_index_def
      example_env_def py_chr_def is_linebreak_def
lemmas tr_defs = candidates_by_location_def joined_new_node_def translation_call_def format_call_def
  record_conversion_def py_repr_def repr_cp_def no_pos_def
lemmas patch_defs = patch_bytes_def sorted_reverse_def sort_key_of_def line_start_indices_def
  mk_result_def py_slice_def slice_bound_def utf8_cp_def to_bytes_def less_eq_prod_def less_prod_def
  char_of_def

lemmas ex_defs = tree_two_args_def call_two_args_def args_two_args_def src_two_args_def
  line_two_args_def after_two_args_def tree_first_run_def src_first_run_def line_first_run_def
  tree_second_run_def emitted_call_def src_second_run_def line_second_run_def
  tree_prompt_def callee_prompt_def src_prompt_def line_prompt_def
  tree_format_spec_def value_format_spec_def src_format_spec_def

lemma visit_call_two_args:
  "visit example_env call_two_args (new_analyzer src_two_args) = Inr after_two_args"
  by (simp add: ex_defs an_defs eval_defs)


subsection \<open>Claim C10\<close>

text \<open>
  C10, as the code has it. The sink names are exactly \<open>print\<close>, \<open>input\<close>, \<open>echo\<close> and
  \<open>prompt\<close>, and the callee's name is its identifier when it is a bare name and its last
  attribute when it is an attribute. Every candidate of type \<open>Constant\<close> that a visit adds
  is a string constant among the direct arguments of a call with such a name that the
  traversal reaches, that is, a call that is not a translation call. In the other
  direction, when a call that is not a translation call has such a name, each string
  constant among its direct arguments whose location is not yet handled, whose line
  exists and which the classifier accepts has a candidate of type \<open>Constant\<close> at its
  location afterwards.
\<close>

theorem literal_candidates_from_sink_calls:
  "user_facing_funcs = {asc ''print'', asc ''input'', asc ''echo'', asc ''prompt''} \<and>
   func_name_of (Name r ident) = ident \<and> func_name_of (Attribute r obj attr) = attr \<and>
   (visit E tree a = Inr a' \<longrightarrow>
      (\<exists>new. strings_to_convert a' = strings_to_convert a @ new \<and>
         (\<forall>loc line v. ConstantC loc line v \<in> set new \<longrightarrow>
            list_ex (\<lambda>(q, w). loc = location_key q \<and> v = w) (reached_sink_args tree)))) \<and>
   (\<not> is_translation_call func \<and> func_name_of func \<in> user_facing_funcs \<and>
    Constant q (Str v) \<in> set args \<and> location_key q \<notin> translated_locations b \<and>
    py_index (source_lines b) (lineno q - 1) = Inr line \<and> is_user_facing_string E v line \<and>
    visit E (Call p func args kws) b = Inr b' \<longrightarrow>
      list_ex (literal_at (location_key q)) (strings_to_convert b'))"
proof (intro conjI impI)
  show "user_facing_funcs = {asc ''print'', asc ''input'', asc ''echo'', asc ''prompt''}"
    by (rule user_facing_funcs_def)
  show "func_name_of (Name r ident) = ident" "func_name_of (Attribute r obj attr) = attr"
    by simp_all
next
  assume "visit E tree a = Inr a'"
  from visit_sound(1)[OF this] obtain new where
    n: "strings_to_convert a' = strings_to_convert a @ new"
    "\<forall>c\<in>set new. from_reached (reached_sink_args tree) (reached_fstrings tree) c"
    by (auto simp: extends_def)
  have "\<forall>loc line v. ConstantC loc line v \<in> set new \<longrightarrow>
      list_ex (\<lambda>(q, w). loc = location_key q \<and> v = w) (reached_sink_args tree)"
    using n(2) by fastforce
  with n(1) show "\<exists>new. strings_to_convert a' = strings_to_convert a @ new \<and>
         (\<forall>loc line v. ConstantC loc line v \<in> set new \<longrightarrow>
            list_ex (\<lambda>(q, w). loc = location_key q \<and> v = w) (reached_sink_args tree))"
    by blast
next
  assume "\<not> is_translation_call func \<and> func_name_of func \<in> user_facing_funcs \<and>
    Constant q (Str v) \<in> set args \<and> location_key q \<notin> translated_locations b \<and>
    py_index (source_lines b) (lineno q - 1) = Inr line \<and> is_user_facing_string E v line \<and>
    visit E (Call p func args kws) b = Inr b'"
  then show "list_ex (literal_at (location_key q)) (strings_to_convert b')"
    using sink_call_complete[of E p func args kws b b' q v line] by blast
qed


theorem literal_candidates_from_sink_calls_witness:
  "visit example_env call_two_args (new_analyzer src_two_args) = Inr after_two_args \<and>
   (\<exists>new. strings_to_convert after_two_args = strings_to_convert (new_analyzer src_two_args) @ new \<and>
      (\<forall>loc line v. ConstantC loc line v \<in> set new \<longrightarrow>
         list_ex (\<lambda>(q, w). loc = location_key q \<and> v = w) (reached_sink_args call_two_args))) \<and>
   \<not> is_translation_call (Name (mk_pos 1 0 1 5) (asc ''print'')) \<and>
   func_name_of (Name (mk_pos 1 0 1 5) (asc ''print'')) \<in> user_facing_funcs \<and>
   Constant (mk_pos 1 27 1 51) (Str (asc ''Operation complete now'')) \<in> set args_two_args \<and>
   location_key (mk_pos 1 27 1 51) \<notin> translated_locations (new_analyzer src_two_args) \<and>
   py_index (source_lines (new_analyzer src_two_args)) (lineno (mk_pos 1 27 1 51) - 1) = Inr line_two_args \<and>
   is_user_facing_string example_env (asc ''Operation complete now'') line_two_args \<and>
   list_ex (literal_at (location_key (mk_pos 1 27 1 51))) (strings_to_convert after_two_args)"
proof -
  note v = visit_call_two_args
  have h: "\<not> is_translation_call (Name (mk_pos 1 0 1 5) (asc ''print'')) \<and>
      func_name_of (Name (mk_pos 1 0 1 5) (asc ''print'')) \<in> user_facing_funcs \<and>
      Constant (mk_pos 1 27 1 51) (Str (asc ''Operation complete now'')) \<in> set args_two_args \<and>
      location_key (mk_pos 1 27 1 51) \<notin> translated_locations (new_analyzer src_two_args) \<and>
      py_index (source_lines (new_analyzer src_two_args)) (lineno (mk_pos 1 27 1 51) - 1) = Inr line_two_args \<and>
      is_user_facing_string example_env (asc ''Operation complete now'') line_two_args"
    by (simp add: ex_defs an_defs eval_defs)
  have v': "visit example_env (Call (mk_pos 1 0 1 52) (Name (mk_pos 1 0 1 5) (asc ''print''))
      args_two_args []) (new_analyzer src_two_args) = Inr after_two_args"
    using v by (simp add: call_two_args_def)
  from literal_candidates_from_sink_calls[of _ _ _ _ example_env call_two_args
      "new_analyzer src_two_args" after_two_args "Name (mk_pos 1 0 1 5) (asc ''print'')"
      "mk_pos 1 27 1 51" "asc ''Operation complete now''" args_two_args "new_analyzer src_two_args"
      line_two_args "mk_pos 1 0 1 52" "[]" after_two_args] v v' h
  show ?thesis by blast
qed

text \<open>
  C10 as the spec states it fails for a callee whose object is itself a call of \<open>_\<close>:
  in \<open>_('Title').prompt('Installation complete, press enter')\<close> the callee's last
  attribute is \<open>prompt\<close> and the classifier accepts the argument, yet the call counts as
  a translation call and no candidate is found.
\<close>

theorem prompt_on_translation_call_counterexample:
  "func_name_of callee_prompt \<in> user_facing_funcs \<and>
   is_user_facing_string example_env (asc ''Installation complete, press enter'') line_prompt \<and>
   analyze example_env src_prompt tree_prompt = Inr []"
  by (simp add: ex_defs an_defs eval_defs)

subsection \<open>Claim C9\<close>

text \<open>
  C9, as the code has it. No sort is applied: a visit only appends to the candidate
  list, so the list is in the order of the traversal, and \<open>analyze_file\<close> returns it as it
  is. In that order the accepted string constants among the arguments of a sink call
  come before everything found in the sub-nodes of the call, its earlier arguments
  included.
\<close>

theorem candidates_in_traversal_order:
  "(visit E tree a = Inr a' \<longrightarrow> (\<exists>new. strings_to_convert a' = strings_to_convert a @ new)) \<and>
   (\<not> is_translation_call func \<and> func_name_of func \<in> user_facing_funcs \<and>
    visit E (Call p func args kws) b = Inr b' \<longrightarrow>
      (\<exists>b1 new. scan_args E args b = Inr b1 \<and> strings_to_convert b' = strings_to_convert b1 @ new)) \<and>
   analyze E source_code tree =
     (case visit E tree (new_analyzer source_code) of
        Inl e \<Rightarrow> Inl e | Inr final \<Rightarrow> Inr (strings_to_convert final))"
proof (intro conjI impI)
  assume "visit E tree a = Inr a'"
  from visit_sound(1)[OF this]
  show "\<exists>new. strings_to_convert a' = strings_to_convert a @ new"
    by (auto simp: extends_def)
next
  assume h: "\<not> is_translation_call func \<and> func_name_of func \<in> user_facing_funcs \<and>
    visit E (Call p func args kws) b = Inr b'"
  then obtain b1 b2 b3 where
    s1: "scan_args E args b = Inr b1" and s2: "visit E func b1 = Inr b2"
    and s3: "visit_all E args b2 = Inr b3" and s4: "visit_all E kws b3 = Inr b'"
    by (auto split: sum.splits)
  from visit_sound(1)[OF s2] visit_sound(2)[OF s3] visit_sound(2)[OF s4]
  obtain n2 n3 n4 where "strings_to_convert b2 = strings_to_convert b1 @ n2"
    "strings_to_convert b3 = strings_to_convert b2 @ n3"
    "strings_to_convert b' = strings_to_convert b3 @ n4"
    unfolding extends_def by blast
  then have "strings_to_convert b' = strings_to_convert b1 @ (n2 @ n3 @ n4)" by simp
  with s1 show "\<exists>b1 new. scan_args E args b = Inr b1 \<and> strings_to_convert b' = strings_to_convert b1 @ new"
    by blast
next
  show "analyze E source_code tree =
     (case visit E tree (new_analyzer source_code) of
        Inl e \<Rightarrow> Inl e | Inr final \<Rightarrow> Inr (strings_to_convert final))"
    by (simp add: analyze_def)
qed

theorem candidates_in_traversal_order_witness:
  "visit example_env call_two_args (new_analyzer src_two_args) = Inr after_two_args \<and>
   (\<exists>new. strings_to_convert after_two_args = strings_to_convert (new_analyzer src_two_args) @ new) \<and>
   \<not> is_translation_call (Name (mk_pos 1 0 1 5) (asc ''print'')) \<and>
   func_name_of (Name (mk_pos 1 0 1 5) (asc ''print'')) \<in> user_facing_funcs \<and>
   (\<exists>b1 new. scan_args example_env args_two_args (new_analyzer src_two_args) = Inr b1 \<and>
      strings_to_convert after_two_args = strings_to_convert b1 @ new)"
proof -
  note v = visit_call_two_args
  have h: "\<not> is_translation_call (Name (mk_pos 1 0 1 5) (asc ''print'')) \<and>
      func_name_of (Name (mk_pos 1 0 1 5) (asc ''print'')) \<in> user_facing_funcs"
    by (simp add: user_facing_funcs_def asc_def)
  have v': "visit example_env (Call (mk_pos 1 0 1 52) (Name (mk_pos 1 0 1 5) (asc ''print''))
      args_two_args []) (new_analyzer src_two_args) = Inr after_two_args"
    using v by (simp add: call_two_args_def)
  from candidates_in_traversal_order[of example_env call_two_args "new_analyzer src_two_args"
      after_two_args "Name (mk_pos 1 0 1 5) (asc ''print'')" "mk_pos 1 0 1 52" args_two_args "[]"
      "new_analyzer src_two_args" after_two_args] v v' h
  show ?thesis by blast
qed

text \<open>
  C9 as the spec states it fails on \<open>print(f"Found {n} errors", "Operation complete now")\<close>:
  the constant at column 27 is appended by the loop over the arguments, before the
  f-string at column 6 is visited.
\<close>

theorem found_locations_unsorted_counterexample:
  "found_locations example_env src_two_args tree_two_args = [(1, 27), (1, 6)] \<and>
   \<not> sorted (found_locations example_env src_two_args tree_two_args)"
proof -
  have "found_locations example_env src_two_args tree_two_args = [(1, 27), (1, 6)]"
    using visit_call_two_args
    by (simp add: found_locations_def analyze_def tree_two_args_def after_two_args_def)
  then show ?thesis by (simp add: less_eq_prod_def)
qed

subsection \<open>Claim C2\<close>

text \<open>
  C2, as the code has it. A call whose callee is \<open>_\<close>, or an attribute of a call of \<open>_\<close>
  (\<open>format\<close> or any other), is a translation call: visiting it records its location and
  changes nothing else, whatever its children are, and the traversal reaches nothing
  inside it. Every candidate a visit adds comes from what the traversal reaches, so
  nothing inside an emitted \<open>_(...)\<close> or \<open>_(...).format(...)\<close> becomes a candidate.
  (Strings outside such calls are classified again on a later run, with the text the
  line has then.)
\<close>

theorem translation_calls_not_entered:
  "is_translation_call (Name q (asc ''_'')) \<and>
   is_translation_call (Attribute q (Call r (Name r' (asc ''_'')) args' kws') attr) \<and>
   (is_translation_call func \<longrightarrow>
      visit E (Call p func args kws) a =
        Inr (a\<lparr> translated_locations := insert (location_key p) (translated_locations a) \<rparr>) \<and>
      reached_sink_args (Call p func args kws) = [] \<and>
      reached_fstrings (Call p func args kws) = []) \<and>
   (visit E tree b = Inr b' \<longrightarrow>
      (\<exists>new. strings_to_convert b' = strings_to_convert b @ new \<and>
         (\<forall>c\<in>set new. from_reached (reached_sink_args tree) (reached_fstrings tree) c)))"
proof (intro conjI impI)
  assume "visit E tree b = Inr b'"
  from visit_sound(1)[OF this]
  show "\<exists>new. strings_to_convert b' = strings_to_convert b @ new \<and>
         (\<forall>c\<in>set new. from_reached (reached_sink_args tree) (reached_fstrings tree) c)"
    by (simp add: extends_def)
qed simp_all

theorem translation_calls_not_entered_witness:
  "is_translation_call
     (Attribute (mk_pos 1 0 1 39)
        (Call (mk_pos 1 0 1 32) (Name (mk_pos 1 0 1 1) (asc ''_''))
           [Constant (mk_pos 1 2 1 31) (Str (asc ''Error: failed to install {}''))] [])
        (asc ''format'')) \<and>
   visit example_env emitted_call (new_analyzer src_second_run) =
     Inr ((new_analyzer src_second_run)\<lparr> translated_locations := {(1, 0)} \<rparr>) \<and>
   reached_sink_args emitted_call = [] \<and> reached_fstrings emitted_call = [] \<and>
   (\<exists>new. strings_to_convert ((new_analyzer src_second_run)\<lparr> translated_locations := {(1, 0)} \<rparr>)
            = strings_to_convert (new_analyzer src_second_run) @ new \<and>
      (\<forall>c\<in>set new. from_reached (reached_sink_args emitted_call) (reached_fstrings emitted_call) c))"
proof -
  let ?f = "Attribute (mk_pos 1 0 1 39)
        (Call (mk_pos 1 0 1 32) (Name (mk_pos 1 0 1 1) (asc ''_''))
           [Constant (mk_pos 1 2 1 31) (Str (asc ''Error: failed to install {}''))] [])
        (asc ''format'')"
  have e: "emitted_call = Call (mk_pos 1 0 1 42) ?f [Name (mk_pos 1 40 1 41) (asc ''x'')] []"
    by (simp add: emitted_call_def)
  have t: "is_translation_call ?f" by simp
  have k: "insert (location_key (mk_pos 1 0 1 42)) (translated_locations (new_analyzer src_second_run))
      = {(1, 0)}"
    by (simp add: location_key_def mk_pos_def new_analyzer_def)
  from translation_calls_not_entered[of "mk_pos 1 0 1 39" "mk_pos 1 0 1 32" "mk_pos 1 0 1 1"
      "[Constant (mk_pos 1 2 1 31) (Str (asc ''Error: failed to install {}''))]" "[]" "asc ''format''"
      ?f example_env "mk_pos 1 0 1 42" "[Name (mk_pos 1 40 1 41) (asc ''x'')]" "[]"
      "new_analyzer src_second_run" emitted_call "new_analyzer src_second_run"
      "(new_analyzer src_second_run)\<lparr> translated_locations := {(1, 0)} \<rparr>"] t
  have a: "visit example_env emitted_call (new_analyzer src_second_run) =
      Inr ((new_analyzer src_second_run)\<lparr> translated_locations := {(1, 0)} \<rparr>)"
    and b: "reached_sink_args emitted_call = []" "reached_fstrings emitted_call = []"
    and c: "visit example_env emitted_call (new_analyzer src_second_run) =
        Inr ((new_analyzer src_second_run)\<lparr> translated_locations := {(1, 0)} \<rparr>) \<longrightarrow>
      (\<exists>new. strings_to_convert ((new_analyzer src_second_run)\<lparr> translated_locations := {(1, 0)} \<rparr>)
            = strings_to_convert (new_analyzer src_second_run) @ new \<and>
      (\<forall>c\<in>set new. from_reached (reached_sink_args emitted_call) (reached_fstrings emitted_call) c))"
    unfolding e k by blast+
  from a b c t show ?thesis by blast
qed

text \<open>
  C2 as the spec states it, no new candidate on a second run, fails on
  \<open>f"Error: failed to install {x}", f"at {y}"\<close>. The first run finds the first f-string
  only (the second one has two words and the line does not start with \<open>print(\<close>,
  \<open>input(\<close> or \<open>_(\<close>) and writes \<open>_('Error: failed to install {}').format(x), f"at {y}"\<close>.
  That line starts with \<open>_(\<close>, so the second run accepts the f-string it had rejected.
\<close>

theorem second_run_new_candidate_counterexample:
  "analyze example_env src_first_run tree_first_run =
     Inr [JoinedStrC (1, 0) (asc ''Error: failed to install {}'') [asc ''x''] line_first_run] \<and>
   file_after (convert_file example_env (new_converter False) [] (to_bytes src_first_run)
      (Parsed src_first_run tree_first_run) Written
      [JoinedStrC (1, 0) (asc ''Error: failed to install {}'') [asc ''x''] line_first_run])
     = to_bytes src_second_run \<and>
   analyze example_env src_second_run tree_second_run =
     Inr [JoinedStrC (1, 44) (asc ''at {}'') [asc ''y''] line_second_run]"
proof (intro conjI)
  show "analyze example_env src_first_run tree_first_run =
     Inr [JoinedStrC (1, 0) (asc ''Error: failed to install {}'') [asc ''x''] line_first_run]"
    by (simp add: ex_defs an_defs eval_defs)
  show "file_after (convert_file example_env (new_converter False) [] (to_bytes src_first_run)
      (Parsed src_first_run tree_first_run) Written
      [JoinedStrC (1, 0) (asc ''Error: failed to install {}'') [asc ''x''] line_first_run])
     = to_bytes src_second_run"
    by (simp add: convert_file_def ex_defs tr_defs location_key_def mk_pos_def example_env_def asc_def
        new_converter_def patch_defs py_index_def Let_def)
  show "analyze example_env src_second_run tree_second_run =
     Inr [JoinedStrC (1, 44) (asc ''at {}'') [asc ''y''] line_second_run]"
    by (simp add: ex_defs an_defs eval_defs)
qed

subsection \<open>Claim C3\<close>

text \<open>
  C3 on the code. The classifier does not read the context for these four contents:
  it rejects \<open>----\<close> and \<open>import os\<close>, accepts a check mark followed by
  \<open> Operation complete\<close>, and rejects \<open>Are you sure you want to continue?\<close>, which
  contains \<open>continue\<close>, one of the technical patterns that are tested before the
  user-facing keywords.
\<close>

theorem classifier_boundary_cases:
  "is_user_facing_string example_env (asc ''----'') context = False \<and>
   is_user_facing_string example_env ([0x2705] @ asc '' Operation complete'') context = True \<and>
   is_user_facing_string example_env (asc ''import os'') context = False \<and>
   is_user_facing_string example_env (asc ''Are you sure you want to continue?'') context = False"
proof (intro conjI)
  show "is_user_facing_string example_env (asc ''----'') context = False"
    by (rule pure_formatting_rejected) (simp add: cls_defs)
  show "is_user_facing_string example_env (asc ''import os'') context = False"
    by (rule technical_rejected) (simp add: cls_defs)
  show "is_user_facing_string example_env (asc ''Are you sure you want to continue?'') context = False"
    by (rule technical_rejected) (simp add: cls_defs)
  show "is_user_facing_string example_env ([0x2705] @ asc '' Operation complete'') context = True"
    by (rule emoji_text_accepted) (simp_all add: cls_defs)
qed

subsection \<open>Claim C4\<close>

text \<open>
  C4 on the code. The placeholder of an embedded expression is \<open>{\<close>, then \<open>!\<close> and the
  conversion character when there is one, then \<open>:\<close> and the text \<open>ast.unparse\<close> gives for
  the format specifier node when there is one, then \<open>}\<close>. The format specifier is an
  f-string node, which \<open>ast.unparse\<close> writes as an f-string literal: for the source fragment
  \<open>{x:>8.3f}\<close> the placeholder is \<open>{:f'>8.3f'}\<close>, not \<open>{:>8.3f}\<close>, and the classifier rejects
  the template of \<open>print(f"Total: {x:>8.3f} items found")\<close>, which contains \<open>f'\<close>.
\<close>

theorem format_spec_placeholder:
  "collect_parts E [FormattedValue p v 114 None] [] [] = Inr ([Some (asc ''{!r}'')], [unparse E v]) \<and>
   collect_parts E [FormattedValue p v (- 1) (Some spec)] [] [] =
     Inr ([Some (asc ''{:'' @ unparse E spec @ asc ''}'')], [unparse E v]) \<and>
   collect_parts example_env [value_format_spec] [] [] =
     Inr ([Some (asc ''{:f'' @ [39] @ asc ''>8.3f'' @ [39] @ asc ''}'')], [asc ''x'']) \<and>
   analyze example_env src_format_spec tree_format_spec = Inr []"
proof (intro conjI)
  show "collect_parts E [FormattedValue p v 114 None] [] [] = Inr ([Some (asc ''{!r}'')], [unparse E v])"
    by (simp add: py_chr_def asc_def)
  show "collect_parts E [FormattedValue p v (- 1) (Some spec)] [] [] =
     Inr ([Some (asc ''{:'' @ unparse E spec @ asc ''}'')], [unparse E v])"
    by (simp add: asc_def)
  show "collect_parts example_env [value_format_spec] [] [] =
     Inr ([Some (asc ''{:f'' @ [39] @ asc ''>8.3f'' @ [39] @ asc ''}'')], [asc ''x''])"
    by (simp add: value_format_spec_def example_env_def asc_def)
  show "analyze example_env src_format_spec tree_format_spec = Inr []"
    by (simp add: ex_defs an_defs eval_defs)
qed

subsection \<open>\<open>repr\<close> read back\<close>

lemma hex_value_digit: "d < 16 \<Longrightarrow> hex_value (hex_digit d) = Some d"
  by (auto simp: hex_value_def hex_digit_def)

lemma hex_number_append:
  "hex_number (xs @ ys) acc = (case hex_number xs acc of None \<Rightarrow> None | Some v \<Rightarrow> hex_number ys v)"
  by (induction xs arbitrary: acc) (auto split: option.splits)

lemma hex_number_hex2: "c < 256 \<Longrightarrow> hex_number (hex2 c) acc = Some (256 * acc + c)"
proof -
  assume c: "c < 256"
  have a: "c div 16 mod 16 < 16" "c mod 16 < 16" by simp_all
  have "c div 16 < 16" using c by (simp add: div_less_iff_less_mult)
  then have "16 * (c div 16 mod 16) + c mod 16 = c" by simp
  then show ?thesis
    using hex_value_digit[OF a(1)] hex_value_digit[OF a(2)] by (simp add: hex2_def)
qed

lemma hex_number_hex4: "c < 65536 \<Longrightarrow> hex_number (hex4 c) acc = Some (65536 * acc + c)"
proof -
  assume c: "c < 65536"
  have a: "c div 256 mod 256 < 256" "c mod 256 < 256" by simp_all
  have "c div 256 < 256" using c by (simp add: div_less_iff_less_mult)
  then have "256 * (c div 256 mod 256) + c mod 256 = c" by simp
  then show ?thesis
    using hex_number_hex2[OF a(1)] hex_number_hex2[OF a(2)]
    by (simp add: hex4_def hex_number_append)
qed

lemma hex_number_hex8: "c < 4294967296 \<Longrightarrow> hex_number (hex8 c) acc = Some (4294967296 * acc + c)"
proof -
  assume c: "c < 4294967296"
  have a: "c div 65536 mod 65536 < 65536" "c mod 65536 < 65536" by simp_all
  have "c div 65536 < 65536" using c by (simp add: div_less_iff_less_mult)
  then have "65536 * (c div 65536 mod 65536) + c mod 65536 = c" by simp
  then show ?thesis
    using hex_number_hex4[OF a(1)] hex_number_hex4[OF a(2)]
    by (simp add: hex8_def hex_number_append)
qed

lemma length_hex: "length (hex2 c) = 2" "length (hex4 c) = 4" "length (hex8 c) = 8"
  by (simp_all add: hex2_def hex4_def hex8_def)

lemma unescape_plain:
  "c \<noteq> quote \<Longrightarrow> c \<noteq> 10 \<Longrightarrow> c \<noteq> 13 \<Longrightarrow> c \<noteq> 92 \<Longrightarrow>
     unescape quote (c # rest) = cons_opt c (unescape quote rest)"
  by simp

lemma unescape_hex2:
  assumes "quote = 39 \<or> quote = 34" "c < 256"
  shows "unescape quote ([92, 120] @ hex2 c @ rest) = cons_opt c (unescape quote rest)"
proof -
  have "take 2 (hex2 c @ rest) = hex2 c" "drop 2 (hex2 c @ rest) = rest"
    "\<not> length (hex2 c @ rest) < 2"
    by (simp_all add: length_hex)
  then show ?thesis using assms hex_number_hex2[OF assms(2), of 0]
    by (auto simp: is_octal_def Let_def)
qed

lemma unescape_hex4:
  assumes "quote = 39 \<or> quote = 34" "c < 65536"
  shows "unescape quote ([92, 117] @ hex4 c @ rest) = cons_opt c (unescape quote rest)"
proof -
  have "take 4 (hex4 c @ rest) = hex4 c" "drop 4 (hex4 c @ rest) = rest"
    "\<not> length (hex4 c @ rest) < 4"
    by (simp_all add: length_hex)
  then show ?thesis using assms hex_number_hex4[OF assms(2), of 0]
    by (auto simp: is_octal_def Let_def)
qed

lemma unescape_hex8:
  assumes "quote = 39 \<or> quote = 34" "c < 0x110000"
  shows "unescape quote ([92, 85] @ hex8 c @ rest) = cons_opt c (unescape quote rest)"
proof -
  have c: "c < 4294967296" using assms(2) by simp
  have "take 8 (hex8 c @ rest) = hex8 c" "drop 8 (hex8 c @ rest) = rest"
    "\<not> length (hex8 c @ rest) < 8"
    by (simp_all add: length_hex)
  then show ?thesis using assms hex_number_hex8[OF c, of 0]
    by (auto simp: is_octal_def Let_def)
qed

lemma unescape_backslash:
  assumes "quote = 39 \<or> quote = 34"
  shows "unescape quote ([92, 92] @ rest) = cons_opt 92 (unescape quote rest)"
    and "unescape quote ([92, quote] @ rest) = cons_opt quote (unescape quote rest)"
    and "unescape quote ([92, 116] @ rest) = cons_opt 9 (unescape quote rest)"
    and "unescape quote ([92, 110] @ rest) = cons_opt 10 (unescape quote rest)"
    and "unescape quote ([92, 114] @ rest) = cons_opt 13 (unescape quote rest)"
  using assms by auto

lemma unescape_repr_cp:
  assumes q: "quote = 39 \<or> quote = 34" and c: "c < 0x110000"
  shows "unescape quote (repr_cp P quote c @ rest) = cons_opt c (unescape quote rest)"
proof (cases "c = quote \<or> c = 92")
  case True
  then have r: "repr_cp P quote c = [92, c]" by (simp add: repr_cp_def)
  show ?thesis
  proof (cases "c = 92")
    case True
    show ?thesis unfolding r using unescape_backslash(1)[OF q, of rest] True by (simp del: unescape.simps)
  next
    case False
    with \<open>c = quote \<or> c = 92\<close> have cq: "c = quote" by simp
    show ?thesis unfolding r using unescape_backslash(2)[OF q, of rest] cq by (simp del: unescape.simps)
  qed
next
  case n1: False
  show ?thesis
  proof (cases "c = 9 \<or> c = 10 \<or> c = 13")
    case True
    then consider "c = 9" | "c = 10" | "c = 13" by blast
    then show ?thesis
    proof cases
      case 1
      then have r: "repr_cp P quote c = [92, 116]" using n1 by (simp add: repr_cp_def)
      show ?thesis unfolding r using unescape_backslash(3)[OF q, of rest] 1 by (simp del: unescape.simps)
    next
      case 2
      then have r: "repr_cp P quote c = [92, 110]" using n1 by (simp add: repr_cp_def)
      show ?thesis unfolding r using unescape_backslash(4)[OF q, of rest] 2 by (simp del: unescape.simps)
    next
      case 3
      then have r: "repr_cp P quote c = [92, 114]" using n1 by (simp add: repr_cp_def)
      show ?thesis unfolding r using unescape_backslash(5)[OF q, of rest] 3 by (simp del: unescape.simps)
    qed
  next
    case n2: False
    show ?thesis
    proof (cases "c < 32 \<or> c = 127")
      case True
      then have r: "repr_cp P quote c = [92, 120] @ hex2 c" using n1 n2 by (simp add: repr_cp_def)
      have "c < 256" using True by auto
      from unescape_hex2[OF q this, of rest] show ?thesis by (simp only: r append_assoc)
    next
      case n3: False
      show ?thesis
      proof (cases "c < 127 \<or> P c")
        case True
        have r: "repr_cp P quote c = [c]"
          using True n1 n2 n3 by (cases "c < 127") (simp_all add: repr_cp_def)
        have "c \<noteq> quote" "c \<noteq> 10" "c \<noteq> 13" "c \<noteq> 92" using n1 n2 by simp_all
        then have "unescape quote (c # rest) = cons_opt c (unescape quote rest)"
          by (rule unescape_plain)
        then show ?thesis by (simp only: r append_Cons append_Nil)
      next
        case n4: False
        show ?thesis
        proof (cases "c \<le> 255")
          case True
          then have r: "repr_cp P quote c = [92, 120] @ hex2 c"
            using n1 n2 n3 n4 by (simp add: repr_cp_def)
          have "c < 256" using True by auto
          from unescape_hex2[OF q this, of rest] show ?thesis by (simp only: r append_assoc)
        next
          case n5: False
          show ?thesis
          proof (cases "c \<le> 65535")
            case True
            then have r: "repr_cp P quote c = [92, 117] @ hex4 c"
              using n1 n2 n3 n4 n5 by (simp add: repr_cp_def)
            have "c < 65536" using True by auto
            from unescape_hex4[OF q this, of rest] show ?thesis by (simp only: r append_assoc)
          next
            case n6: False
            then have r: "repr_cp P quote c = [92, 85] @ hex8 c"
              using n1 n2 n3 n4 n5 by (simp add: repr_cp_def)
            from unescape_hex8[OF q c, of rest] show ?thesis by (simp only: r append_assoc)
          qed
        qed
      qed
    qed
  qed
qed

lemma unescape_repr_body:
  assumes q: "quote = 39 \<or> quote = 34" and s: "\<forall>c\<in>set s. c < 0x110000"
  shows "unescape quote (concat (map (repr_cp P quote) s) @ [quote]) = Some s"
  using s
proof (induction s)
  case Nil
  then show ?case by simp
next
  case (Cons c s)
  then have c: "c < 0x110000"
    and ih: "unescape quote (concat (map (repr_cp P quote) s) @ [quote]) = Some s"
    by auto
  have "unescape quote (repr_cp P quote c @ (concat (map (repr_cp P quote) s) @ [quote]))
      = cons_opt c (Some s)"
    using unescape_repr_cp[OF q c, of P "concat (map (repr_cp P quote) s) @ [quote]"] ih
    by (simp del: unescape.simps)
  then show ?case by (simp del: unescape.simps add: cons_opt_def)
qed

lemma parse_literal_repr:
  assumes "\<forall>c\<in>set s. c < 0x110000"
  shows "parse_literal (py_repr P s) = Some s"
proof -
  let ?q = "if 39 \<in> set s \<and> 34 \<notin> set s then 34 else (39::nat)"
  have q: "?q = 39 \<or> ?q = 34" by simp
  have "py_repr P s = ?q # (concat (map (repr_cp P ?q) s) @ [?q])"
    by (simp add: py_repr_def Let_def)
  moreover have "parse_literal (?q # (concat (map (repr_cp P ?q) s) @ [?q]))
      = unescape ?q (concat (map (repr_cp P ?q) s) @ [?q])"
    by (simp del: unescape.simps)
  ultimately show ?thesis
    using unescape_repr_body[OF q assms, of P] by (simp del: unescape.simps)
qed

subsection \<open>The nodes and texts the transformer builds\<close>




lemma unparse_new_translation_call:
  "unparse_new E (translation_call s) = asc ''_('' @ py_repr (isprintable E) s @ asc '')''"
  by (simp add: translation_call_def asc_def)

lemma unparse_new_format_call:
  "unparse_new E (format_call (translation_call s) format_args) =
     asc ''_('' @ py_repr (isprintable E) s @ asc '').format('' @
       join_comma (map (unparse E) format_args) @ asc '')''"
  by (simp add: translation_call_def format_call_def asc_def)

subsection \<open>Claim C5\<close>



subsection \<open>Claim C6\<close>

text \<open>
  C6. The string literal the transformer emits is the \<open>repr\<close> of the value: of the
  constant's value for a string constant, of the template for an f-string. Read back as
  Python reads a string literal, it gives that value again, code point by code point,
  quotes, backslashes and control characters included.
\<close>

theorem emitted_literal_round_trip:
  "(\<forall>c\<in>set s. c < 0x110000) \<longrightarrow>
     parse_literal (py_repr (isprintable E) s) = Some s \<and>
     unparse_new E (translation_call s) = asc ''_('' @ py_repr (isprintable E) s @ asc '')'' \<and>
     unparse_new E (format_call (translation_call s) format_args) =
       asc ''_('' @ py_repr (isprintable E) s @ asc '').format('' @
         join_comma (map (unparse E) format_args) @ asc '')'' \<and>
     convert_constant E p s (Some (ConstantC loc line val)) =
       [record_conversion p line (asc ''_('' @ py_repr (isprintable E) s @ asc '')'') [] []] \<and>
     convert_joined E p (Some (JoinedStrC loc s [] line)) =
       Inr [record_conversion p line (asc ''_('' @ py_repr (isprintable E) s @ asc '')'') s []]"
proof (intro impI conjI)
  assume "\<forall>c\<in>set s. c < 0x110000"
  then show "parse_literal (py_repr (isprintable E) s) = Some s" by (rule parse_literal_repr)
next
  show "unparse_new E (translation_call s) = asc ''_('' @ py_repr (isprintable E) s @ asc '')''"
    by (rule unparse_new_translation_call)
  show "unparse_new E (format_call (translation_call s) format_args) =
       asc ''_('' @ py_repr (isprintable E) s @ asc '').format('' @
         join_comma (map (unparse E) format_args) @ asc '')''"
    by (rule unparse_new_format_call)
  show "convert_constant E p s (Some (ConstantC loc line val)) =
       [record_conversion p line (asc ''_('' @ py_repr (isprintable E) s @ asc '')'') [] []]"
    by (simp add: unparse_new_translation_call)
  show "convert_joined E p (Some (JoinedStrC loc s [] line)) =
       Inr [record_conversion p line (asc ''_('' @ py_repr (isprintable E) s @ asc '')'') s []]"
    by (simp add: joined_new_node_def unparse_new_translation_call)
qed

theorem emitted_literal_round_trip_witness:
  "py_repr (isprintable example_env) [39, 92, 10, 7, 111, 107] =
     [34, 39, 92, 92, 92, 110, 92, 120, 48, 55, 111, 107, 34] \<and>
   parse_literal [34, 39, 92, 92, 92, 110, 92, 120, 48, 55, 111, 107, 34] = Some [39, 92, 10, 7, 111, 107] \<and>
   py_repr (isprintable example_env) [39, 34, 133] = [39, 92, 39, 34, 92, 120, 56, 53, 39] \<and>
   parse_literal [39, 92, 39, 34, 92, 120, 56, 53, 39] = Some [39, 34, 133]"
proof -
  have r1: "py_repr (isprintable example_env) [39, 92, 10, 7, 111, 107] =
     [34, 39, 92, 92, 92, 110, 92, 120, 48, 55, 111, 107, 34]"
    by (simp add: py_repr_def repr_cp_def hex2_def hex_digit_def example_env_def)
  have r2: "py_repr (isprintable example_env) [39, 34, 133] = [39, 92, 39, 34, 92, 120, 56, 53, 39]"
    by (simp add: py_repr_def repr_cp_def hex2_def hex_digit_def example_env_def)
  have h1: "\<forall>c\<in>set [39, 92, 10, 7, 111, 107]. c < (0x110000::nat)" by simp
  have h2: "\<forall>c\<in>set [39, 34, 133]. c < (0x110000::nat)" by simp
  from emitted_literal_round_trip[of "[39, 92, 10, 7, 111, 107]" example_env] h1
  have p1: "parse_literal (py_repr (isprintable example_env) [39, 92, 10, 7, 111, 107])
      = Some [39, 92, 10, 7, 111, 107]" by blast
  from emitted_literal_round_trip[of "[39, 34, 133]" example_env] h2
  have p2: "parse_literal (py_repr (isprintable example_env) [39, 34, 133]) = Some [39, 34, 133]"
    by blast
  from p1 p2 show ?thesis unfolding r1 r2 using r1 r2 by simp
qed

subsection \<open>The walk with skipped replacements\<close>

lemma indexable_Inr:
  assumes "indexable starts r"
  obtains sb eb b where "py_index starts (start_line r - 1) = Inr sb"
    "py_index starts (end_line r - 1) = Inr eb" "utf8_encode (replacement_text r) = Some b"
proof -
  from assms have "\<exists>sb. py_index starts (start_line r - 1) = Inr sb"
    "\<exists>eb. py_index starts (end_line r - 1) = Inr eb"
    "\<exists>b. utf8_encode (replacement_text r) = Some b"
    by (auto simp: indexable_def py_index_def split: if_splits)
  then show ?thesis using that by blast
qed

lemma patch_loop_applied:
  assumes "\<forall>r\<in>set reps. indexable starts r"
  shows "\<exists>parts' last'.
     patch_loop path src starts reps parts last_pos convs =
       (Inr (parts', last'), convs @ map (mk_result path) (applied starts reps last_pos)) \<and>
     patch_loop path src starts (applied starts reps last_pos) parts last_pos convs =
       (Inr (parts', last'), convs @ map (mk_result path) (applied starts reps last_pos))"
  using assms
proof (induction reps arbitrary: parts last_pos convs)
  case Nil
  then show ?case by simp
next
  case (Cons r rs)
  then have ir: "indexable starts r" and irs: "\<forall>r\<in>set rs. indexable starts r" by auto
  from ir obtain sb eb b where
    sb: "py_index starts (start_line r - 1) = Inr sb"
    and eb: "py_index starts (end_line r - 1) = Inr eb"
    and b: "utf8_encode (replacement_text r) = Some b"
    by (rule indexable_Inr)
  show ?case
  proof (cases "sb + start_col r \<ge> last_pos")
    case True
    have l: "patch_loop path src starts (r # rs) parts last_pos convs =
        patch_loop path src starts rs parts last_pos convs"
      using True by (simp add: sb eb Let_def)
    have a: "applied starts (r # rs) last_pos = applied starts rs last_pos"
      using True by (simp add: sb)
    from Cons.IH[OF irs, of parts last_pos convs] show ?thesis unfolding l a .
  next
    case False
    let ?parts = "parts @ [py_slice src (eb + end_col r) last_pos, b]"
    let ?s = "sb + start_col r"
    let ?convs = "convs @ [mk_result path r]"
    have l: "patch_loop path src starts (r # rs) parts last_pos convs =
        patch_loop path src starts rs ?parts ?s ?convs"
      using False by (simp add: sb eb b Let_def)
    have a: "applied starts (r # rs) last_pos = r # applied starts rs ?s"
      using False by (simp add: sb)
    have l2: "patch_loop path src starts (r # applied starts rs ?s) parts last_pos convs =
        patch_loop path src starts (applied starts rs ?s) ?parts ?s ?convs"
      using False by (simp add: sb eb b Let_def)
    from Cons.IH[OF irs, of ?parts ?s ?convs] show ?thesis unfolding l a l2 by simp
  qed
qed

lemma transform_format_spec:
  "transform example_env (candidates_by_location [cand_format_spec]) tree_format_spec [] =
     Inr [conv_format_spec, conv_format_spec]"
  by (simp add: ex_defs cand_format_spec_def conv_format_spec_def tr_defs location_key_def
      mk_pos_def example_env_def asc_def)

lemma bytes_format_spec:
  "line_start_indices (to_bytes src_format_spec) = [0, 39]"
  "int (length (to_bytes src_format_spec)) = 39"
  by (simp_all add: src_format_spec_def asc_def patch_defs)

lemma indexable_format_spec:
  "indexable (line_start_indices (to_bytes src_format_spec)) conv_format_spec"
  unfolding bytes_format_spec
  by (simp add: indexable_def conv_format_spec_def py_index_def asc_def utf8_cp_def)

lemma applied_format_spec:
  "applied (line_start_indices (to_bytes src_format_spec))
     (sorted_reverse [conv_format_spec, conv_format_spec])
     (int (length (to_bytes src_format_spec))) = [conv_format_spec]"
  unfolding bytes_format_spec
  by (simp add: sorted_reverse_def sort_key_of_def conv_format_spec_def py_index_def)

subsection \<open>Claim C7\<close>

text \<open>
  C7, as the code has it. When the lines of every replacement exist and its text can be
  encoded, the walk ends without an exception, whatever the spans are: a replacement that
  starts at or after the cursor is skipped, with no \<open>ConversionResult\<close> recorded for it,
  and the result is the one of the walk over the other replacements alone.
  \<open>convert_file\<close> then has its buffer, and nothing is printed about a skipped
  replacement: it prints nothing at all and returns \<open>True\<close>, unless it is a real run whose
  write fails, which prints that error.
\<close>

theorem skipped_spans_silent:
  "((\<forall>r\<in>set reps. indexable starts r) \<longrightarrow>
      (\<exists>parts' last'.
         patch_loop path src starts reps parts last_pos convs =
           (Inr (parts', last'), convs @ map (mk_result path) (applied starts reps last_pos)) \<and>
         patch_loop path src starts (applied starts reps last_pos) parts last_pos convs =
           (Inr (parts', last'), convs @ map (mk_result path) (applied starts reps last_pos)))) \<and>
   (fstrings \<noteq> [] \<and> transform E (candidates_by_location fstrings) tree [] = Inr made \<and>
    made \<noteq> [] \<and> (\<forall>r\<in>set made. indexable (line_start_indices source_bytes) r) \<longrightarrow>
      (\<exists>final. final_source_bytes
          (convert_file E c path source_bytes (Parsed source_code tree) w fstrings) = Some final) \<and>
      returned (convert_file E c path source_bytes (Parsed source_code tree) w fstrings) =
        (dry_run c \<or> w = Written) \<and>
      printed (convert_file E c path source_bytes (Parsed source_code tree) w fstrings) =
        (if dry_run c \<or> w = Written then [] else [ErrorConverting path OSError, Traceback]) \<and>
      all_conversions (converter_after
          (convert_file E c path source_bytes (Parsed source_code tree) w fstrings)) =
        all_conversions c @ map (mk_result path)
          (applied (line_start_indices source_bytes) (sorted_reverse made)
             (int (length source_bytes))))"
proof (intro conjI impI)
  assume "\<forall>r\<in>set reps. indexable starts r"
  then show "\<exists>parts' last'.
         patch_loop path src starts reps parts last_pos convs =
           (Inr (parts', last'), convs @ map (mk_result path) (applied starts reps last_pos)) \<and>
         patch_loop path src starts (applied starts reps last_pos) parts last_pos convs =
           (Inr (parts', last'), convs @ map (mk_result path) (applied starts reps last_pos))"
    by (rule patch_loop_applied)
next
  assume h: "fstrings \<noteq> [] \<and> transform E (candidates_by_location fstrings) tree [] = Inr made \<and>
    made \<noteq> [] \<and> (\<forall>r\<in>set made. indexable (line_start_indices source_bytes) r)"
  let ?starts = "line_start_indices source_bytes"
  let ?ap = "applied ?starts (sorted_reverse made) (int (length source_bytes))"
  have "\<forall>r\<in>set (sorted_reverse made). indexable ?starts r"
    using h by (simp add: sorted_reverse_def)
  from patch_loop_applied[OF this, of path source_bytes "[]" "int (length source_bytes)" "all_conversions c"]
  obtain parts' last' where
    "patch_loop path source_bytes ?starts (sorted_reverse made) [] (int (length source_bytes))
       (all_conversions c) = (Inr (parts', last'), all_conversions c @ map (mk_result path) ?ap)"
    by blast
  then have pb: "patch_bytes path source_bytes made (all_conversions c) =
      (Inr (concat (rev (parts' @ [py_slice source_bytes 0 last']))),
       all_conversions c @ map (mk_result path) ?ap)"
    by (simp add: patch_bytes_def)
  let ?r = "convert_file E c path source_bytes (Parsed source_code tree) w fstrings"
  from h pb show "\<exists>final. final_source_bytes ?r = Some final"
    by (cases w) (simp_all add: convert_file_def)
  from h pb show "returned ?r = (dry_run c \<or> w = Written)"
    by (cases w) (simp_all add: convert_file_def)
  from h pb show "printed ?r =
      (if dry_run c \<or> w = Written then [] else [ErrorConverting path OSError, Traceback])"
    by (cases w) (simp_all add: convert_file_def)
  from h pb show "all_conversions (converter_after ?r) = all_conversions c @ map (mk_result path) ?ap"
    by (cases w) (simp_all add: convert_file_def)
qed

theorem skipped_spans_silent_witness:
  "[cand_format_spec] \<noteq> [] \<and>
   transform example_env (candidates_by_location [cand_format_spec]) tree_format_spec [] =
     Inr [conv_format_spec, conv_format_spec] \<and>
   indexable (line_start_indices (to_bytes src_format_spec)) conv_format_spec \<and>
   (\<exists>parts' last'.
      patch_loop [] (to_bytes src_format_spec) (line_start_indices (to_bytes src_format_spec))
        (sorted_reverse [conv_format_spec, conv_format_spec]) []
        (int (length (to_bytes src_format_spec))) [] =
      (Inr (parts', last'), [mk_result [] conv_format_spec])) \<and>
   (\<exists>final. final_source_bytes (convert_file example_env (new_converter False) []
      (to_bytes src_format_spec) (Parsed src_format_spec tree_format_spec) (WriteError [])
      [cand_format_spec]) = Some final) \<and>
   returned (convert_file example_env (new_converter False) [] (to_bytes src_format_spec)
      (Parsed src_format_spec tree_format_spec) (WriteError []) [cand_format_spec]) = False \<and>
   printed (convert_file example_env (new_converter False) [] (to_bytes src_format_spec)
      (Parsed src_format_spec tree_format_spec) (WriteError []) [cand_format_spec]) =
     [ErrorConverting [] OSError, Traceback] \<and>
   all_conversions (converter_after (convert_file example_env (new_converter False) []
      (to_bytes src_format_spec) (Parsed src_format_spec tree_format_spec) (WriteError [])
      [cand_format_spec]))
     = [mk_result [] conv_format_spec]"
proof -
  let ?B = "to_bytes src_format_spec"
  let ?S = "line_start_indices ?B"
  let ?made = "[conv_format_spec, conv_format_spec]"
  note t = transform_format_spec
  note ix = indexable_format_spec
  note ap = applied_format_spec
  have h1: "\<forall>r\<in>set (sorted_reverse ?made). indexable ?S r"
    using ix by (simp add: sorted_reverse_def)
  have h2: "[cand_format_spec] \<noteq> [] \<and>
      transform example_env (candidates_by_location [cand_format_spec]) tree_format_spec [] = Inr ?made \<and>
      ?made \<noteq> [] \<and> (\<forall>r\<in>set ?made. indexable ?S r)"
    using t ix by simp
  have e: "all_conversions (new_converter False) = []" "dry_run (new_converter False) = False"
    by (simp_all add: new_converter_def)
  let ?r = "convert_file example_env (new_converter False) [] ?B
      (Parsed src_format_spec tree_format_spec) (WriteError []) [cand_format_spec]"
  from skipped_spans_silent[where reps = "sorted_reverse ?made" and starts = ?S and path = "[]"
      and src = ?B and parts = "[]" and last_pos = "int (length ?B)" and convs = "[]"
      and fstrings = "[cand_format_spec]" and E = example_env and tree = tree_format_spec
      and made = ?made and source_bytes = ?B and c = "new_converter False"
      and source_code = src_format_spec and w = "WriteError []"] h1 h2
  have A: "\<exists>parts' last'. patch_loop [] ?B ?S (sorted_reverse ?made) [] (int (length ?B)) [] =
        (Inr (parts', last'),
         [] @ map (mk_result []) (applied ?S (sorted_reverse ?made) (int (length ?B))))"
    and F: "\<exists>final. final_source_bytes ?r = Some final"
    and R: "returned ?r = (dry_run (new_converter False) \<or> WriteError [] = Written)"
    and P: "printed ?r = (if dry_run (new_converter False) \<or> WriteError [] = Written then []
        else [ErrorConverting [] OSError, Traceback])"
    and C: "all_conversions (converter_after ?r) =
        all_conversions (new_converter False) @
        map (mk_result []) (applied ?S (sorted_reverse ?made) (int (length ?B)))"
    by blast+
  have A': "\<exists>parts' last'. patch_loop [] ?B ?S (sorted_reverse ?made) [] (int (length ?B)) [] =
        (Inr (parts', last'), [mk_result [] conv_format_spec])"
    using A unfolding ap by (simp del: patch_loop.simps)
  have R': "returned ?r = False" using R unfolding e by simp
  have P': "printed ?r = [ErrorConverting [] OSError, Traceback]" using P unfolding e by simp
  have C': "all_conversions (converter_after ?r) = [mk_result [] conv_format_spec]"
    using C unfolding ap e by simp
  show ?thesis using A' F R' P' C' t ix by (simp del: patch_loop.simps)
qed

text \<open>
  C7 as the spec states it, dropped and logged, fails on the f-string of
  \<open>print(f"Total: {x:>8.3f} items found")\<close>: the transformer records two conversions with
  one span (for the f-string and for its format specifier, which has the same
  position), the second is skipped by the guard, and \<open>convert_file\<close>, whose write
  succeeds, prints nothing.
\<close>

theorem skipped_span_not_logged_counterexample:
  "transform example_env (candidates_by_location [cand_format_spec]) tree_format_spec [] =
     Inr [conv_format_spec, conv_format_spec] \<and>
   applied (line_start_indices (to_bytes src_format_spec))
     (sorted_reverse [conv_format_spec, conv_format_spec])
     (int (length (to_bytes src_format_spec))) = [conv_format_spec] \<and>
   returned (convert_file example_env (new_converter False) [] (to_bytes src_format_spec)
      (Parsed src_format_spec tree_format_spec) Written [cand_format_spec]) = True \<and>
   printed (convert_file example_env (new_converter False) [] (to_bytes src_format_spec)
      (Parsed src_format_spec tree_format_spec) Written [cand_format_spec]) = []"
proof -
  have "returned (convert_file example_env (new_converter False) [] (to_bytes src_format_spec)
      (Parsed src_format_spec tree_format_spec) Written [cand_format_spec]) = True \<and>
   printed (convert_file example_env (new_converter False) [] (to_bytes src_format_spec)
      (Parsed src_format_spec tree_format_spec) Written [cand_format_spec]) = []"
    by (simp add: convert_file_def ex_defs cand_format_spec_def tr_defs location_key_def mk_pos_def
        example_env_def asc_def new_converter_def patch_defs py_index_def Let_def)
  with transform_format_spec applied_format_spec show ?thesis by simp
qed

subsection \<open>Claim C8\<close>

text \<open>
  C8. A dry run and a real run of \<open>convert_file\<close> on the same file and candidates compute
  the same \<open>final_source_bytes\<close> and record the same conversions, and the candidates of
  \<open>analyze_file\<close> do not depend on the mode. The two runs differ in the write only: the
  dry run leaves the file as it is and returns \<open>True\<close> when there is a buffer; the real
  run writes the buffer, and returns and prints what the dry run does when the write
  succeeds, while a write that fails is printed, makes it return \<open>False\<close> and leaves in
  the file what it leaves.
\<close>

theorem dry_run_same_buffer:
  "final_source_bytes (convert_file E (c\<lparr>dry_run := True\<rparr>) path source_bytes outcome w' fstrings) =
     final_source_bytes (convert_file E (c\<lparr>dry_run := False\<rparr>) path source_bytes outcome w fstrings) \<and>
   all_conversions (converter_after
       (convert_file E (c\<lparr>dry_run := True\<rparr>) path source_bytes outcome w' fstrings)) =
     all_conversions (converter_after
       (convert_file E (c\<lparr>dry_run := False\<rparr>) path source_bytes outcome w fstrings)) \<and>
   map_sum id fst (analyze_file E (c\<lparr>dry_run := True\<rparr>) path outcome) =
     map_sum id fst (analyze_file E (c\<lparr>dry_run := False\<rparr>) path outcome) \<and>
   file_after (convert_file E (c\<lparr>dry_run := True\<rparr>) path source_bytes outcome w' fstrings) =
     source_bytes \<and>
   returned (convert_file E (c\<lparr>dry_run := True\<rparr>) path source_bytes outcome w' fstrings) =
     (final_source_bytes
        (convert_file E (c\<lparr>dry_run := True\<rparr>) path source_bytes outcome w' fstrings) \<noteq> None) \<and>
   file_after (convert_file E (c\<lparr>dry_run := False\<rparr>) path source_bytes outcome w fstrings) =
     (case final_source_bytes
             (convert_file E (c\<lparr>dry_run := False\<rparr>) path source_bytes outcome w fstrings) of
        None \<Rightarrow> source_bytes
      | Some final \<Rightarrow> (case w of Written \<Rightarrow> final | WriteError left \<Rightarrow> left)) \<and>
   returned (convert_file E (c\<lparr>dry_run := False\<rparr>) path source_bytes outcome w fstrings) =
     (returned (convert_file E (c\<lparr>dry_run := True\<rparr>) path source_bytes outcome w' fstrings) \<and>
      w = Written) \<and>
   printed (convert_file E (c\<lparr>dry_run := False\<rparr>) path source_bytes outcome w fstrings) =
     (if returned (convert_file E (c\<lparr>dry_run := True\<rparr>) path source_bytes outcome w' fstrings)
      then (case w of Written \<Rightarrow> [] | WriteError left \<Rightarrow> [ErrorConverting path OSError, Traceback])
      else printed (convert_file E (c\<lparr>dry_run := True\<rparr>) path source_bytes outcome w' fstrings))"
proof -
  have a: "map_sum id fst (analyze_file E (c\<lparr>dry_run := True\<rparr>) path outcome) =
     map_sum id fst (analyze_file E (c\<lparr>dry_run := False\<rparr>) path outcome)"
    by (cases outcome) (auto simp: analyze_file_def Let_def split: sum.splits)
  show ?thesis
  proof (cases "fstrings = []")
    case True
    with a show ?thesis by (simp add: convert_file_def failed_def)
  next
    case ne: False
    show ?thesis
    proof (cases outcome)
      case Unreadable
      with a ne show ?thesis by (simp add: convert_file_def failed_def)
    next
      case NotUtf8
      with a ne show ?thesis by (simp add: convert_file_def failed_def)
    next
      case NoParse
      with a ne show ?thesis by (simp add: convert_file_def failed_def)
    next
      case (Parsed source_code tree)
      show ?thesis
      proof (cases "transform E (candidates_by_location fstrings) tree []")
        case (Inl e)
        with a ne Parsed show ?thesis by (simp add: convert_file_def failed_def)
      next
        case (Inr made)
        show ?thesis
        proof (cases "made = []")
          case True
          with a ne Parsed Inr show ?thesis by (simp add: convert_file_def failed_def)
        next
          case m: False
          obtain res convs where pb: "patch_bytes path source_bytes made (all_conversions c) = (res, convs)"
            by (cases "patch_bytes path source_bytes made (all_conversions c)") auto
          show ?thesis
          proof (cases res)
            case (Inl e)
            with a ne Parsed Inr m pb show ?thesis by (simp add: convert_file_def failed_def)
          next
            case (Inr final)
            with a ne Parsed \<open>transform E (candidates_by_location fstrings) tree [] = Inr made\<close> m pb
            show ?thesis by (cases w) (simp_all add: convert_file_def)
          qed
        qed
      qed
    qed
  qed
qed

text \<open>
  On a file that cannot be written the two runs part at the write: the dry run returns
  \<open>True\<close> and prints nothing, the real run prints the error and returns \<open>False\<close>, and both
  have the same buffer.
\<close>

lemma unwritable_file_runs:
  "returned (convert_file example_env (new_converter True) [] (to_bytes src_first_run)
      (Parsed src_first_run tree_first_run) (WriteError (to_bytes src_first_run))
      [JoinedStrC (1, 0) (asc ''Error: failed to install {}'') [asc ''x''] line_first_run]) = True \<and>
   returned (convert_file example_env (new_converter False) [] (to_bytes src_first_run)
      (Parsed src_first_run tree_first_run) (WriteError (to_bytes src_first_run))
      [JoinedStrC (1, 0) (asc ''Error: failed to install {}'') [asc ''x''] line_first_run]) = False \<and>
   final_source_bytes (convert_file example_env (new_converter False) [] (to_bytes src_first_run)
      (Parsed src_first_run tree_first_run) (WriteError (to_bytes src_first_run))
      [JoinedStrC (1, 0) (asc ''Error: failed to install {}'') [asc ''x''] line_first_run])
     = Some (to_bytes src_second_run)"
  by (simp add: convert_file_def ex_defs tr_defs location_key_def mk_pos_def example_env_def asc_def
      new_converter_def patch_defs py_index_def Let_def)

end
